theory Spec2Isabelle
  imports Main "HOL-Library.Word"
begin

unbundle bit_operations_syntax

section \<open>The mailbox binary tree file (src/lib-index/mail-tree.c)\<close>

text \<open>
  A shallow embedding of the mapping lifecycle of the binary tree index: the handle
  (\<open>struct mail_tree\<close>), the owning record-index, and the operating system as far as
  the code uses it (one tree file, the live memory mappings, the system calls issued and
  their outcomes). C's \<open>unsigned int\<close> is a 32-bit word; \<open>size_t\<close> and \<open>uoff_t\<close> are
  64-bit words (an LP64 platform), so every \<open>+\<close>, \<open>-\<close> and \<open>*\<close> below wraps as it does in C.
  Names are the source's; a leading underscore is dropped (\<open>_mail_tree_grow\<close> is
  \<open>mail_tree_grow\<close>).
\<close>

subsection \<open>Data\<close>

type_synonym uint = "32 word"
type_synonym size_t = "64 word"
type_synonym uoff_t = "64 word"

datatype errno = ENOSPC | EDQUOT | EIO | EINVAL | ENOMEM | EBADF | EACCES | EFAULT

text \<open>
  Modelled from the spec: the macro \<open>ENOSPACE\<close> is not part of the sources; section 7 of
  the specification names \<open>ENOSPC\<close> and \<open>EDQUOT\<close> as the disk-full errors.
\<close>

definition ENOSPACE :: "errno \<Rightarrow> bool" where
  "ENOSPACE e = (e = ENOSPC \<or> e = EDQUOT)"

text \<open>How a process stops without returning: a failed \<open>i_assert\<close>, \<open>i_panic\<close>, or a
  memory access outside every live mapping.\<close>

datatype abort = Assert_failed | Panic | Fault

text \<open>
  The constants and sizes that the headers (not part of the sources) define. They are
  parameters of every operation.
\<close>

record cfg =
  sizeof_header :: size_t
  sizeof_node :: size_t
  INDEX_MIN_RECORDS_COUNT :: nat
  INDEX_GROW_PERCENTAGE :: nat
  INDEX_TRUNCATE_PERCENTAGE :: nat
  INDEX_TRUNCATE_KEEP_PERCENTAGE :: nat
  OFF_T_MAX :: uoff_t
  SSIZE_T_MAX :: uoff_t
  MAIL_INDEX_FLAG_REBUILD_TREE :: uint

definition MAIL_TREE_MIN_SIZE :: "cfg \<Rightarrow> size_t" where
  "MAIL_TREE_MIN_SIZE c = sizeof_header c + of_nat (INDEX_MIN_RECORDS_COUNT c) * sizeof_node c"

text \<open>A pointer is null, \<open>MAP_FAILED\<close>, or an offset into the mapping with a given
  identity.\<close>

datatype ptr = NULL | MAP_FAILED | Ptr nat size_t

record mail_tree_header =
  hdr_indexid :: uint
  hdr_sync_id :: uint
  used_file_size :: uoff_t

datatype corruption =
    Used_larger_than_file uoff_t size_t
  | Invalid_used_file_size uoff_t

text \<open>The messages of \<open>index_set_error\<close>: the format and its arguments.\<close>

datatype index_error =
    Syscall_failed string string errno
  | Corrupted string corruption
  | Too_small string
  | IndexID_mismatch string
  | Index_syscall_failed string string errno

record mail_tree =
  fd :: int
  filepath :: string
  anon_mmap :: bool
  mmap_base :: ptr
  mmap_full_length :: size_t
  mmap_used_length :: size_t
  mmap_highwater :: size_t
  header :: ptr
  node_base :: ptr
  sync_id :: uint
  modified :: bool

datatype mail_lock_type = MAIL_LOCK_UNLOCK | MAIL_LOCK_SHARED | MAIL_LOCK_EXCLUSIVE

record mail_index_record =
  uid :: uint
  record_index :: uint

text \<open>The owning record-index, as far as the tree reads and writes it. \<open>flags\<close> and
  \<open>messages_count\<close> are the fields of \<open>index->header\<close>; \<open>records\<close> is what
  \<open>lookup(index, 1)\<close> and \<open>next\<close> walk through; \<open>index_filepath\<close> is \<open>index->filepath\<close>;
  \<open>has_tree\<close> says whether \<open>index->tree\<close> points to the handle. Modelled from the spec:
  the macro \<open>INDEX_IS_IN_MEMORY\<close> is not part of the sources; \<open>in_memory\<close> is its value
  (an in-memory index gets an anonymous tree, section 4.6).\<close>

record mail_index =
  indexid :: uint
  lock_type :: mail_lock_type
  mmap_invalidate :: bool
  nodiskspace :: bool
  inconsistent :: bool
  error :: "index_error option"
  flags :: uint
  messages_count :: uint
  records :: "mail_index_record list"
  index_filepath :: string
  mailbox_path :: string
  in_memory :: bool
  has_tree :: bool

subsection \<open>The operating system\<close>

datatype syscall =
    Open string
  | Msync ptr size_t bool
  | Munmap ptr size_t
  | Mmap_rw_file int
  | Ftruncate int uoff_t
  | File_set_size int uoff_t
  | Unlink string
  | Lseek int
  | Write_full int
  | Close int
  | Mmap_anon size_t
  | Mremap_anon ptr size_t size_t
  | Munmap_anon ptr size_t

record mapping =
  m_len :: size_t
  m_anon :: bool
  m_hdr :: mail_tree_header

text \<open>
  The world holds the tree file (its length, the header at its start, whether its name is
  still linked), the live mappings, the calls made so far (oldest first), and the outcome
  of each call still to come: \<open>None\<close> is success, \<open>Some e\<close> failure with \<open>errno = e\<close>;
  when the list is used up, calls succeed.
\<close>

record world =
  file_size :: uoff_t
  file_hdr :: mail_tree_header
  file_linked :: bool
  mappings :: "nat \<Rightarrow> mapping option"
  next_addr :: nat
  trace :: "syscall list"
  outcomes :: "errno option list"

record sys =
  tree :: mail_tree
  index :: mail_index
  world :: world

definition sys_call :: "syscall \<Rightarrow> world \<Rightarrow> errno option \<times> world" where
  "sys_call c w =
     (case outcomes w of
        [] \<Rightarrow> (None, w\<lparr>trace := trace w @ [c]\<rparr>)
      | r # rs \<Rightarrow> (r, w\<lparr>trace := trace w @ [c], outcomes := rs\<rparr>))"

definition zero_header :: mail_tree_header where
  "zero_header = \<lparr>hdr_indexid = 0, hdr_sync_id = 0, used_file_size = 0\<rparr>"

definition unmap :: "ptr \<Rightarrow> world \<Rightarrow> world" where
  "unmap p w = (case p of Ptr a off \<Rightarrow> w\<lparr>mappings := (mappings w)(a := None)\<rparr> | _ \<Rightarrow> w)"

definition sys_msync :: "ptr \<Rightarrow> size_t \<Rightarrow> bool \<Rightarrow> world \<Rightarrow> errno option \<times> world" where
  "sys_msync p len invalidate w = sys_call (Msync p len invalidate) w"

definition sys_munmap :: "ptr \<Rightarrow> size_t \<Rightarrow> world \<Rightarrow> errno option \<times> world" where
  "sys_munmap p len w =
     (case sys_call (Munmap p len) w of
        (Some e, w') \<Rightarrow> (Some e, w')
      | (None, w') \<Rightarrow> (None, unmap p w'))"

definition sys_munmap_anon :: "ptr \<Rightarrow> size_t \<Rightarrow> world \<Rightarrow> errno option \<times> world" where
  "sys_munmap_anon p len w =
     (case sys_call (Munmap_anon p len) w of
        (Some e, w') \<Rightarrow> (Some e, w')
      | (None, w') \<Rightarrow> (None, unmap p w'))"

definition sys_ftruncate :: "int \<Rightarrow> uoff_t \<Rightarrow> world \<Rightarrow> errno option \<times> world" where
  "sys_ftruncate f len w =
     (case sys_call (Ftruncate f len) w of
        (Some e, w') \<Rightarrow> (Some e, w')
      | (None, w') \<Rightarrow> (None, w'\<lparr>file_size := len\<rparr>))"

text \<open>\<open>unlink\<close>: the source ignores its result, so only the new world is returned.\<close>

definition sys_unlink :: "string \<Rightarrow> world \<Rightarrow> world" where
  "sys_unlink path w =
     (case sys_call (Unlink path) w of
        (Some e, w') \<Rightarrow> w'
      | (None, w') \<Rightarrow> w'\<lparr>file_linked := False\<rparr>)"


definition sys_close :: "int \<Rightarrow> world \<Rightarrow> errno option \<times> world" where
  "sys_close f w = sys_call (Close f) w"

definition sys_lseek :: "int \<Rightarrow> world \<Rightarrow> errno option \<times> world" where
  "sys_lseek f w = sys_call (Lseek f) w"

text \<open>
  Modelled from the spec: \<open>file_set_size\<close>, \<open>write_full\<close>, \<open>mmap_rw_file\<close>, \<open>mmap_anon\<close>
  and \<open>mremap_anon\<close> are library helpers outside the sources. \<open>file_set_size\<close> sets the
  file's length (section 4.2, "extend the file length to new_fsize"); \<open>write_full\<close>, called
  after \<open>lseek\<close> to offset 0 with the header, writes the header at the start of the file;
  \<open>mmap_rw_file\<close> maps "the entire current file length for read-write" and sets the
  length, and gives a null base for an empty file (the caller's test
  \<open>mmap_full_length == 0\<close> after a successful call, "just created it"); on failure it
  returns \<open>MAP_FAILED\<close> and the length is left as it was. \<open>mmap_anon\<close> gives a fresh
  zero-filled region; \<open>mremap_anon\<close> resizes a live anonymous region, possibly moving it,
  and keeps its contents.
\<close>

definition sys_file_set_size :: "int \<Rightarrow> uoff_t \<Rightarrow> world \<Rightarrow> errno option \<times> world" where
  "sys_file_set_size f len w =
     (case sys_call (File_set_size f len) w of
        (Some e, w') \<Rightarrow> (Some e, w')
      | (None, w') \<Rightarrow> (None, w'\<lparr>file_size := len\<rparr>))"

definition sys_write_full :: "cfg \<Rightarrow> int \<Rightarrow> mail_tree_header \<Rightarrow> world \<Rightarrow> errno option \<times> world" where
  "sys_write_full c f h w =
     (case sys_call (Write_full f) w of
        (Some e, w') \<Rightarrow> (Some e, w')
      | (None, w') \<Rightarrow>
          (None, w'\<lparr>file_hdr := h,
                    file_size := (if file_size w' < sizeof_header c then sizeof_header c
                                  else file_size w')\<rparr>))"

definition sys_mmap_rw_file :: "int \<Rightarrow> world \<Rightarrow> (errno + ptr \<times> size_t) \<times> world" where
  "sys_mmap_rw_file f w =
     (case sys_call (Mmap_rw_file f) w of
        (Some e, w') \<Rightarrow> (Inl e, w')
      | (None, w') \<Rightarrow>
          if file_size w' = 0 then (Inr (NULL, 0), w')
          else (Inr (Ptr (next_addr w') 0, file_size w'),
                w'\<lparr>mappings := (mappings w')(next_addr w' \<mapsto>
                       \<lparr>m_len = file_size w', m_anon = False, m_hdr = zero_header\<rparr>),
                    next_addr := Suc (next_addr w')\<rparr>))"

definition sys_mmap_anon :: "size_t \<Rightarrow> world \<Rightarrow> (errno + ptr) \<times> world" where
  "sys_mmap_anon len w =
     (case sys_call (Mmap_anon len) w of
        (Some e, w') \<Rightarrow> (Inl e, w')
      | (None, w') \<Rightarrow>
          (Inr (Ptr (next_addr w') 0),
           w'\<lparr>mappings := (mappings w')(next_addr w' \<mapsto>
                  \<lparr>m_len = len, m_anon = True, m_hdr = zero_header\<rparr>),
               next_addr := Suc (next_addr w')\<rparr>))"

definition sys_mremap_anon :: "ptr \<Rightarrow> size_t \<Rightarrow> size_t \<Rightarrow> world \<Rightarrow> (errno + ptr) \<times> world" where
  "sys_mremap_anon p old_len new_len w =
     (case sys_call (Mremap_anon p old_len new_len) w of
        (Some e, w') \<Rightarrow> (Inl e, w')
      | (None, w') \<Rightarrow>
          (case p of
             Ptr a off \<Rightarrow>
               (case mappings w' a of
                  Some m \<Rightarrow>
                    if off = 0 \<and> m_anon m then
                      (Inr (Ptr (next_addr w') 0),
                       w'\<lparr>mappings := ((mappings w')(a := None))(next_addr w' \<mapsto> m\<lparr>m_len := new_len\<rparr>),
                           next_addr := Suc (next_addr w')\<rparr>)
                    else (Inl EINVAL, w')
                | None \<Rightarrow> (Inl EFAULT, w'))
           | _ \<Rightarrow> (Inl EFAULT, w')))"

text \<open>
  Reading and writing the header through a pointer. The access is inside memory only when
  the pointer is the start of a live mapping that is at least a header long; a file
  mapping is shared, so its header is the file's.
\<close>

definition load_hdr :: "cfg \<Rightarrow> world \<Rightarrow> ptr \<Rightarrow> mail_tree_header option" where
  "load_hdr c w p =
     (case p of
        Ptr a off \<Rightarrow>
          (case mappings w a of
             Some m \<Rightarrow>
               if off = 0 \<and> sizeof_header c \<le> m_len m
               then Some (if m_anon m then m_hdr m else file_hdr w)
               else None
           | None \<Rightarrow> None)
      | _ \<Rightarrow> None)"

definition store_hdr :: "cfg \<Rightarrow> ptr \<Rightarrow> mail_tree_header \<Rightarrow> world \<Rightarrow> world option" where
  "store_hdr c p h w =
     (case p of
        Ptr a off \<Rightarrow>
          (case mappings w a of
             Some m \<Rightarrow>
               if off = 0 \<and> sizeof_header c \<le> m_len m
               then Some (if m_anon m then w\<lparr>mappings := (mappings w)(a \<mapsto> m\<lparr>m_hdr := h\<rparr>)\<rparr>
                          else w\<lparr>file_hdr := h\<rparr>)
               else None
           | None \<Rightarrow> None)
      | _ \<Rightarrow> None)"

fun ptr_add :: "ptr \<Rightarrow> size_t \<Rightarrow> ptr" where
  "ptr_add (Ptr a off) n = Ptr a (off + n)"
| "ptr_add p n = p"

subsection \<open>Reporting errors\<close>

text \<open>Modelled from the spec: \<open>index_set_error\<close> is outside the sources; it records the
  message on the owning index.\<close>

definition index_set_error :: "index_error \<Rightarrow> mail_index \<Rightarrow> mail_index" where
  "index_set_error m i = i\<lparr>error := Some m\<rparr>"


text \<open>\<open>tree_set_syscall_error\<close>, lines 18-30. \<open>errno\<close> is the failed call's; every caller
  passes a string literal, so the assertion \<open>function != NULL\<close> holds.\<close>

definition tree_set_syscall_error :: "string \<Rightarrow> errno \<Rightarrow> sys \<Rightarrow> bool \<times> sys" where
  "tree_set_syscall_error function e s =
     (if ENOSPACE e then (False, s\<lparr>index := (index s)\<lparr>nodiskspace := True\<rparr>\<rparr>)
      else (False, s\<lparr>index := index_set_error
                      (Syscall_failed function (filepath (tree s)) e) (index s)\<rparr>))"

text \<open>\<open>_mail_tree_set_corrupted\<close>, lines 32-50.\<close>

definition mail_tree_set_corrupted :: "corruption \<Rightarrow> sys \<Rightarrow> bool \<times> sys" where
  "mail_tree_set_corrupted why s =
     (let s1 = s\<lparr>index := index_set_error (Corrupted (filepath (tree s)) why) (index s)\<rparr>;
          s2 = s1\<lparr>index := (index s1)\<lparr>inconsistent := True\<rparr>\<rparr>
      in (False, s2\<lparr>world := sys_unlink (filepath (tree s2)) (world s2)\<rparr>))"

subsection \<open>Mapping and verifying\<close>

text \<open>
  The functions below return \<open>Inl a\<close> when the process stops with \<open>a\<close>, and otherwise the
  C return value (\<open>TRUE\<close>/\<open>FALSE\<close>) with the state they leave. \<open>debug_mprotect\<close> changes
  nothing that is modelled and is left out.
\<close>

text \<open>\<open>mmap_update\<close>, lines 56-65: the old mapping is synced and released. \<open>Inl\<close> is the
  early \<open>return\<close> after a failed \<open>msync\<close>.\<close>

definition mmap_update_release :: "sys \<Rightarrow> (bool \<times> sys) + sys" where
  "mmap_update_release s =
     (if mmap_base (tree s) \<noteq> NULL then
        (case (if \<not> anon_mmap (tree s) \<and> modified (tree s)
               then sys_msync (mmap_base (tree s)) (mmap_highwater (tree s)) False (world s)
               else (None, world s)) of
           (Some e, w) \<Rightarrow> Inl (tree_set_syscall_error ''msync()'' e (s\<lparr>world := w\<rparr>))
         | (None, w) \<Rightarrow>
             (let s1 = s\<lparr>world := w, tree := (tree s)\<lparr>modified := False\<rparr>\<rparr> in
              case sys_munmap (mmap_base (tree s1)) (mmap_full_length (tree s1)) (world s1) of
                (Some e, w') \<Rightarrow> Inr (snd (tree_set_syscall_error ''munmap()'' e (s1\<lparr>world := w'\<rparr>)))
              | (None, w') \<Rightarrow> Inr (s1\<lparr>world := w'\<rparr>)))
      else Inr s)"

text \<open>\<open>mmap_update\<close>, lines 52-79.\<close>

definition mmap_update :: "sys \<Rightarrow> abort + bool \<times> sys" where
  "mmap_update s =
     (if anon_mmap (tree s) then Inl Assert_failed
      else
        (case mmap_update_release s of
           Inl r \<Rightarrow> Inr r
         | Inr s1 \<Rightarrow>
             (let s2 = s1\<lparr>tree := (tree s1)\<lparr>mmap_used_length := 0, header := NULL,
                                             node_base := NULL\<rparr>\<rparr> in
              case sys_mmap_rw_file (fd (tree s2)) (world s2) of
                (Inl e, w) \<Rightarrow>
                  Inr (tree_set_syscall_error ''mmap()'' e
                         (s2\<lparr>world := w, tree := (tree s2)\<lparr>mmap_base := NULL\<rparr>\<rparr>))
              | (Inr (base, len), w) \<Rightarrow>
                  Inr (True, s2\<lparr>world := w,
                                 tree := (tree s2)\<lparr>mmap_base := base, mmap_full_length := len\<rparr>\<rparr>))))"

text \<open>\<open>mmap_verify\<close>, lines 98-102: a trailing partial record is cut off.\<close>

definition mmap_verify_truncate :: "uint \<Rightarrow> sys \<Rightarrow> sys" where
  "mmap_verify_truncate extra s =
     (let s1 = s\<lparr>tree := (tree s)\<lparr>mmap_full_length := mmap_full_length (tree s) - ucast extra\<rparr>\<rparr> in
      case sys_ftruncate (fd (tree s1)) (mmap_full_length (tree s1)) (world s1) of
        (Some e, w) \<Rightarrow> snd (tree_set_syscall_error ''ftruncate()'' e (s1\<lparr>world := w\<rparr>))
      | (None, w) \<Rightarrow> s1\<lparr>world := w\<rparr>)"

text \<open>\<open>mmap_verify\<close>, lines 94-103: \<open>extra\<close> is an \<open>unsigned int\<close>.\<close>

definition mmap_verify_extra :: "cfg \<Rightarrow> sys \<Rightarrow> sys" where
  "mmap_verify_extra c s =
     (let extra = (ucast ((mmap_full_length (tree s) - sizeof_header c) mod sizeof_node c) :: uint)
      in if extra \<noteq> 0 then mmap_verify_truncate extra s else s)"

text \<open>\<open>mmap_verify\<close>, lines 81-130.\<close>

definition mmap_verify :: "cfg \<Rightarrow> sys \<Rightarrow> abort + bool \<times> sys" where
  "mmap_verify c s =
     (if mmap_full_length (tree s) < sizeof_header c + sizeof_node c then
        (let s1 = s\<lparr>index := index_set_error (Too_small (filepath (tree s))) (index s)\<rparr> in
         Inr (False, s1\<lparr>world := sys_unlink (filepath (tree s1)) (world s1)\<rparr>))
      else
        (let s1 = mmap_verify_extra c s
         in case load_hdr c (world s1) (mmap_base (tree s1)) of
              None \<Rightarrow> Inl Fault
            | Some hdr \<Rightarrow>
                if used_file_size hdr > mmap_full_length (tree s1) then
                  Inr (mail_tree_set_corrupted
                         (Used_larger_than_file (used_file_size hdr) (mmap_full_length (tree s1))) s1)
                else if used_file_size hdr < sizeof_header c \<or>
                        (used_file_size hdr - sizeof_header c) mod sizeof_node c \<noteq> 0 then
                  Inr (mail_tree_set_corrupted (Invalid_used_file_size (used_file_size hdr)) s1)
                else
                  Inr (True, s1\<lparr>tree := (tree s1)
                         \<lparr>header := mmap_base (tree s1),
                          node_base := ptr_add (mmap_base (tree s1)) (sizeof_header c),
                          sync_id := hdr_sync_id hdr,
                          mmap_used_length := used_file_size hdr,
                          mmap_highwater := used_file_size hdr\<rparr>\<rparr>)))"

text \<open>The last line of \<open>_mail_tree_mmap_update\<close>: \<open>mmap_update(tree) && mmap_verify(tree)\<close>.\<close>

definition remap_and_verify :: "cfg \<Rightarrow> sys \<Rightarrow> abort + bool \<times> sys" where
  "remap_and_verify c s =
     (case mmap_update s of
        Inl a \<Rightarrow> Inl a
      | Inr (False, s1) \<Rightarrow> Inr (False, s1)
      | Inr (True, s1) \<Rightarrow> mmap_verify c s1)"

text \<open>\<open>_mail_tree_mmap_update\<close>, lines 132-156.\<close>

definition mail_tree_mmap_update :: "cfg \<Rightarrow> bool \<Rightarrow> sys \<Rightarrow> abort + bool \<times> sys" where
  "mail_tree_mmap_update c forced s =
     (case (if mmap_invalidate (index s) \<and> mmap_base (tree s) \<noteq> NULL
            then sys_msync (mmap_base (tree s)) (mmap_used_length (tree s)) True (world s)
            else (None, world s)) of
        (Some e, w) \<Rightarrow> Inr (tree_set_syscall_error ''msync()'' e (s\<lparr>world := w\<rparr>))
      | (None, w) \<Rightarrow>
          (let s1 = s\<lparr>world := w\<rparr> in
           if \<not> forced \<and> header (tree s1) \<noteq> NULL then
             (case load_hdr c (world s1) (header (tree s1)) of
                None \<Rightarrow> Inl Fault
              | Some hdr \<Rightarrow>
                  if sync_id (tree s1) = hdr_sync_id hdr then
                    (let s2 = s1\<lparr>tree := (tree s1)\<lparr>mmap_used_length := used_file_size hdr\<rparr>\<rparr> in
                     if mmap_used_length (tree s2) > mmap_full_length (tree s2) then Inl Panic
                     else Inr (True, s2))
                  else remap_and_verify c s1)
           else remap_and_verify c s1))"

subsection \<open>Lifecycle\<close>



text \<open>\<open>mail_tree_close\<close>, lines 267-288. Freeing \<open>filepath\<close> is not modelled.\<close>

definition mail_tree_close :: "sys \<Rightarrow> sys" where
  "mail_tree_close s =
     (let s1 =
        (if anon_mmap (tree s) then
           (case sys_munmap_anon (mmap_base (tree s)) (mmap_full_length (tree s)) (world s) of
              (Some e, w) \<Rightarrow> snd (tree_set_syscall_error ''munmap_anon()'' e (s\<lparr>world := w\<rparr>))
            | (None, w) \<Rightarrow> s\<lparr>world := w\<rparr>)
         else if mmap_base (tree s) \<noteq> NULL then
           (case sys_munmap (mmap_base (tree s)) (mmap_full_length (tree s)) (world s) of
              (Some e, w) \<Rightarrow> snd (tree_set_syscall_error ''munmap()'' e (s\<lparr>world := w\<rparr>))
            | (None, w) \<Rightarrow> s\<lparr>world := w\<rparr>)
         else s);
          s2 = s1\<lparr>tree := (tree s1)\<lparr>mmap_base := NULL, mmap_full_length := 0,
                                         mmap_used_length := 0, header := NULL\<rparr>\<rparr>
      in if fd (tree s2) \<noteq> - 1 then
           (let s3 = (case sys_close (fd (tree s2)) (world s2) of
                        (Some e, w) \<Rightarrow> snd (tree_set_syscall_error ''close()'' e (s2\<lparr>world := w\<rparr>))
                      | (None, w) \<Rightarrow> s2\<lparr>world := w\<rparr>)
            in s3\<lparr>tree := (tree s3)\<lparr>fd := - 1\<rparr>\<rparr>)
         else s2)"


text \<open>\<open>mail_tree_init\<close>, lines 298-328.\<close>

definition mail_tree_init :: "cfg \<Rightarrow> sys \<Rightarrow> abort + bool \<times> sys" where
  "mail_tree_init c s =
     (let hdr = zero_header\<lparr>hdr_indexid := indexid (index s),
                            used_file_size := sizeof_header c + sizeof_node c\<rparr> in
      if anon_mmap (tree s) then
        (let s1 = s\<lparr>tree := (tree s)\<lparr>mmap_full_length := MAIL_TREE_MIN_SIZE c\<rparr>\<rparr> in
         case sys_mmap_anon (mmap_full_length (tree s1)) (world s1) of
           (Inl e, w) \<Rightarrow>
             Inr (tree_set_syscall_error ''mmap_anon()'' e
                    (s1\<lparr>world := w, tree := (tree s1)\<lparr>mmap_base := MAP_FAILED\<rparr>\<rparr>))
         | (Inr base, w) \<Rightarrow>
             (case store_hdr c base hdr w of
                None \<Rightarrow> Inl Fault
              | Some w' \<Rightarrow> mmap_verify c (s1\<lparr>world := w', tree := (tree s1)\<lparr>mmap_base := base\<rparr>\<rparr>)))
      else
        (case sys_lseek (fd (tree s)) (world s) of
           (Some e, w) \<Rightarrow> Inr (tree_set_syscall_error ''lseek()'' e (s\<lparr>world := w\<rparr>))
         | (None, w) \<Rightarrow>
             (case sys_write_full c (fd (tree s)) hdr w of
                (Some e, w1) \<Rightarrow> Inr (tree_set_syscall_error ''write_full()'' e (s\<lparr>world := w1\<rparr>))
              | (None, w1) \<Rightarrow>
                  (case sys_file_set_size (fd (tree s)) (MAIL_TREE_MIN_SIZE c) w1 of
                     (Some e, w2) \<Rightarrow>
                       Inr (tree_set_syscall_error ''file_set_size()'' e (s\<lparr>world := w2\<rparr>))
                   | (None, w2) \<Rightarrow> Inr (True, s\<lparr>world := w2\<rparr>)))))"

definition set_rebuild_tree :: "cfg \<Rightarrow> sys \<Rightarrow> sys" where
  "set_rebuild_tree c s =
     s\<lparr>index := (index s)\<lparr>flags := flags (index s) OR MAIL_INDEX_FLAG_REBUILD_TREE c\<rparr>\<rparr>"

text \<open>\<open>mail_tree_reset\<close>, lines 330-341.\<close>

definition mail_tree_reset :: "cfg \<Rightarrow> sys \<Rightarrow> abort + bool \<times> sys" where
  "mail_tree_reset c s =
     (if lock_type (index s) \<noteq> MAIL_LOCK_EXCLUSIVE then Inl Assert_failed
      else
        (case mail_tree_init c s of
           Inl a \<Rightarrow> Inl a
         | Inr (False, s1) \<Rightarrow> Inr (False, set_rebuild_tree c s1)
         | Inr (True, s1) \<Rightarrow>
             if \<not> anon_mmap (tree s1) then
               (case mail_tree_mmap_update c True s1 of
                  Inl a \<Rightarrow> Inl a
                | Inr (False, s2) \<Rightarrow> Inr (False, set_rebuild_tree c s2)
                | Inr (True, s2) \<Rightarrow> Inr (True, s2))
             else Inr (True, s1)))"

text \<open>
  \<open>mail_tree_insert\<close> (another file of the repository) and the index's \<open>set_lock\<close> callback
  are outside the sources; \<open>mail_tree_rebuild\<close> takes them as parameters.
\<close>

type_synonym insert_fn = "uint \<Rightarrow> uint \<Rightarrow> sys \<Rightarrow> abort + bool \<times> sys"
type_synonym set_lock_fn = "mail_lock_type \<Rightarrow> sys \<Rightarrow> bool \<times> sys"

text \<open>
  The loop of \<open>mail_tree_rebuild\<close>, lines 353-363, over the records that
  \<open>lookup(index, 1)\<close> and \<open>next\<close> yield; \<open>INDEX_RECORD_INDEX\<close> is the record's position.
  The records are read when the loop starts: inserting into the tree does not add or
  remove records of the index.
\<close>

fun rebuild_loop :: "cfg \<Rightarrow> insert_fn \<Rightarrow> mail_index_record list \<Rightarrow> sys \<Rightarrow> abort + bool \<times> sys" where
  "rebuild_loop c ins [] s = Inr (True, s)"
| "rebuild_loop c ins (rec # rest) s =
     (case ins (uid rec) (record_index rec) s of
        Inl a \<Rightarrow> Inl a
      | Inr (False, s1) \<Rightarrow> Inr (False, set_rebuild_tree c s1)
      | Inr (True, s1) \<Rightarrow> rebuild_loop c ins rest s1)"

text \<open>\<open>mail_tree_rebuild\<close>, lines 343-366.\<close>

definition mail_tree_rebuild :: "cfg \<Rightarrow> set_lock_fn \<Rightarrow> insert_fn \<Rightarrow> sys \<Rightarrow> abort + bool \<times> sys" where
  "mail_tree_rebuild c set_lock ins s =
     (case set_lock MAIL_LOCK_EXCLUSIVE s of
        (False, s1) \<Rightarrow> Inr (False, s1)
      | (True, s1) \<Rightarrow>
          (case mail_tree_reset c s1 of
             Inl a \<Rightarrow> Inl a
           | Inr (False, s2) \<Rightarrow> Inr (False, s2)
           | Inr (True, s2) \<Rightarrow> rebuild_loop c ins (records (index s2)) s2))"




subsection \<open>Syncing, growing, truncating\<close>

text \<open>\<open>mail_tree_sync_file\<close>, lines 368-385; the second component is \<open>*fsync_fd\<close>.\<close>

definition mail_tree_sync_file :: "sys \<Rightarrow> abort + bool \<times> int \<times> sys" where
  "mail_tree_sync_file s =
     (if \<not> modified (tree s) \<or> anon_mmap (tree s) then Inr (True, - 1, s)
      else if mmap_base (tree s) = NULL then Inl Assert_failed
      else
        (case sys_msync (mmap_base (tree s)) (mmap_highwater (tree s)) False (world s) of
           (Some e, w) \<Rightarrow>
             (let r = tree_set_syscall_error ''msync()'' e (s\<lparr>world := w\<rparr>)
              in Inr (fst r, - 1, snd r))
         | (None, w) \<Rightarrow>
             Inr (True, fd (tree s),
                  s\<lparr>world := w,
                    tree := (tree s)\<lparr>mmap_highwater := mmap_used_length (tree s),
                                     modified := False\<rparr>\<rparr>)))"

text \<open>\<open>tree->header->sync_id++\<close>: a read and a write through \<open>tree->header\<close>.\<close>

definition bump_sync_id :: "cfg \<Rightarrow> sys \<Rightarrow> sys option" where
  "bump_sync_id c s =
     (case load_hdr c (world s) (header (tree s)) of
        None \<Rightarrow> None
      | Some hdr \<Rightarrow>
          (case store_hdr c (header (tree s)) (hdr\<lparr>hdr_sync_id := hdr_sync_id hdr + 1\<rparr>) (world s) of
             None \<Rightarrow> None
           | Some w \<Rightarrow> Some (s\<lparr>world := w\<rparr>)))"

text \<open>The first lines of \<open>_mail_tree_grow\<close>, 393-399.\<close>

definition grow_count :: "cfg \<Rightarrow> sys \<Rightarrow> uint" where
  "grow_count c s =
     (let g = messages_count (index s) * of_nat (INDEX_GROW_PERCENTAGE c) div 100
      in if g < 16 then 16 else g)"

definition new_fsize :: "cfg \<Rightarrow> sys \<Rightarrow> uoff_t" where
  "new_fsize c s = mmap_full_length (tree s) + ucast (grow_count c s) * sizeof_node c"

text \<open>\<open>_mail_tree_grow\<close>, lines 387-427.\<close>

definition mail_tree_grow :: "cfg \<Rightarrow> sys \<Rightarrow> abort + bool \<times> sys" where
  "mail_tree_grow c s =
     (if \<not> new_fsize c s < OFF_T_MAX c then Inl Assert_failed
      else if anon_mmap (tree s) then
        (if \<not> new_fsize c s < SSIZE_T_MAX c then Inl Assert_failed
         else
           (case sys_mremap_anon (mmap_base (tree s)) (mmap_full_length (tree s))
                   (new_fsize c s) (world s) of
              (Inl e, w) \<Rightarrow> Inr (tree_set_syscall_error ''mremap_anon()'' e (s\<lparr>world := w\<rparr>))
            | (Inr base, w) \<Rightarrow>
                mmap_verify c
                  (s\<lparr>world := w,
                     tree := (tree s)\<lparr>mmap_base := base, mmap_full_length := new_fsize c s\<rparr>\<rparr>)))
      else
        (case sys_file_set_size (fd (tree s)) (new_fsize c s) (world s) of
           (Some e, w) \<Rightarrow> Inr (tree_set_syscall_error ''file_set_size()'' e (s\<lparr>world := w\<rparr>))
         | (None, w) \<Rightarrow>
             (case bump_sync_id c (s\<lparr>world := w\<rparr>) of
                None \<Rightarrow> Inl Fault
              | Some s1 \<Rightarrow>
                  mail_tree_mmap_update c True (s1\<lparr>tree := (tree s1)\<lparr>modified := True\<rparr>\<rparr>))))"

text \<open>The new length of \<open>_mail_tree_truncate\<close>, lines 445-454.\<close>

definition truncate_target :: "cfg \<Rightarrow> sys \<Rightarrow> size_t" where
  "truncate_target c s =
     (let empty_space = mmap_full_length (tree s) - mmap_used_length (tree s);
          l1 = mmap_used_length (tree s) +
               empty_space * of_nat (INDEX_TRUNCATE_KEEP_PERCENTAGE c) div 100;
          l2 = l1 - (l1 - sizeof_header c) mod sizeof_node c
      in if l2 < MAIL_TREE_MIN_SIZE c then MAIL_TREE_MIN_SIZE c else l2)"

text \<open>\<open>_mail_tree_truncate\<close>, lines 429-461; it returns nothing.\<close>

definition mail_tree_truncate :: "cfg \<Rightarrow> sys \<Rightarrow> abort + sys" where
  "mail_tree_truncate c s =
     (if lock_type (index s) \<noteq> MAIL_LOCK_EXCLUSIVE then Inl Assert_failed
      else if mmap_full_length (tree s) \<le> MAIL_TREE_MIN_SIZE c \<or> anon_mmap (tree s) then Inr s
      else
        (let empty_space = mmap_full_length (tree s) - mmap_used_length (tree s);
             truncate_threshold =
               mmap_full_length (tree s) div 100 * of_nat (INDEX_TRUNCATE_PERCENTAGE c)
         in if empty_space > truncate_threshold then
              (let s1 = s\<lparr>tree := (tree s)\<lparr>mmap_full_length := truncate_target c s\<rparr>\<rparr>;
                   s2 = (case sys_ftruncate (fd (tree s1)) (mmap_full_length (tree s1)) (world s1) of
                           (Some e, w) \<Rightarrow>
                             snd (tree_set_syscall_error ''ftruncate()'' e (s1\<lparr>world := w\<rparr>))
                         | (None, w) \<Rightarrow> s1\<lparr>world := w\<rparr>)
               in case bump_sync_id c s2 of
                    None \<Rightarrow> Inl Fault
                  | Some s3 \<Rightarrow> Inr s3)
            else Inr s))"

subsection \<open>Well-formed constants, fresh mappings, and example states\<close>

text \<open>
  What the sizes of the two structs always satisfy: a node is not empty, its size fits an
  \<open>unsigned int\<close> (the type of \<open>extra\<close> in \<open>mmap_verify\<close>), and a header and a node
  together do not wrap around \<open>size_t\<close>.
\<close>

definition cfg_ok :: "cfg \<Rightarrow> bool" where
  "cfg_ok c = (0 < sizeof_node c \<and> sizeof_node c < 2 ^ 32 \<and>
               sizeof_header c \<le> sizeof_header c + sizeof_node c)"

text \<open>
  The handle right after \<open>mmap_rw_file\<close> succeeded: the base is the start of a live
  mapping whose length is \<open>mmap_full_length\<close>, or null for an empty file.
\<close>

definition freshly_mapped :: "sys \<Rightarrow> bool" where
  "freshly_mapped s =
     (case mmap_base (tree s) of
        Ptr a off \<Rightarrow>
          off = 0 \<and> (case mappings (world s) a of
                       Some m \<Rightarrow> m_len m = mmap_full_length (tree s)
                     | None \<Rightarrow> False)
      | NULL \<Rightarrow> mmap_full_length (tree s) = 0
      | MAP_FAILED \<Rightarrow> False)"

text \<open>
  Example values for the constants (a 24-byte header and node, 64 initial records, growth
  by 10 percent, truncation above 30 percent keeping 10 percent), an owning index, and a
  tree file of a given length and header that has just been mapped whole.
\<close>

definition cfg0 :: cfg where
  "cfg0 = \<lparr>sizeof_header = 24, sizeof_node = 24, INDEX_MIN_RECORDS_COUNT = 64,
           INDEX_GROW_PERCENTAGE = 10, INDEX_TRUNCATE_PERCENTAGE = 30,
           INDEX_TRUNCATE_KEEP_PERCENTAGE = 10,
           OFF_T_MAX = 9223372036854775807, SSIZE_T_MAX = 9223372036854775807,
           MAIL_INDEX_FLAG_REBUILD_TREE = 32\<rparr>"

definition index0 :: mail_index where
  "index0 = \<lparr>indexid = 305419896, lock_type = MAIL_LOCK_EXCLUSIVE, mmap_invalidate = False,
             nodiskspace = False, inconsistent = False, error = None, flags = 0,
             messages_count = 16, records = [], index_filepath = ''mail/.imap.index'',
             mailbox_path = ''mail'', in_memory = False, has_tree = True\<rparr>"

definition file_world :: "uoff_t \<Rightarrow> mail_tree_header \<Rightarrow> errno option list \<Rightarrow> world" where
  "file_world len h outs =
     \<lparr>file_size = len, file_hdr = h, file_linked = True,
      mappings = Map.empty(0 \<mapsto> \<lparr>m_len = len, m_anon = False, m_hdr = zero_header\<rparr>),
      next_addr = 1, trace = [], outcomes = outs\<rparr>"

definition mapped_file :: "uoff_t \<Rightarrow> mail_tree_header \<Rightarrow> errno option list \<Rightarrow> sys" where
  "mapped_file len h outs =
     \<lparr>tree = \<lparr>fd = 3, filepath = ''mail/.imap.index.tree'', anon_mmap = False,
               mmap_base = Ptr 0 0, mmap_full_length = len, mmap_used_length = 0,
               mmap_highwater = 0, header = NULL, node_base = NULL, sync_id = 0,
               modified = False\<rparr>,
      index = index0,
      world = file_world len h outs\<rparr>"

text \<open>A mapped file shorter than a header and a node, and one whose header claims more
  bytes than the file has.\<close>

definition too_small_file :: sys where
  "too_small_file = mapped_file 10 zero_header []"

definition corrupt_file :: sys where
  "corrupt_file =
     mapped_file 96 \<lparr>hdr_indexid = 305419896, hdr_sync_id = 0, used_file_size = 4096\<rparr> []"

text \<open>The outcome that the next system call will have, when it is a failure.\<close>

definition next_call_fails :: "world \<Rightarrow> errno option" where
  "next_call_fails w = (case outcomes w of Some e # rest \<Rightarrow> Some e | _ \<Rightarrow> None)"

text \<open>A tree file that has been mapped and verified.\<close>

definition open_file :: "uoff_t \<Rightarrow> mail_tree_header \<Rightarrow> errno option list \<Rightarrow> sys" where
  "open_file len h outs =
     (mapped_file len h outs)
       \<lparr>tree := (tree (mapped_file len h outs))
          \<lparr>header := Ptr 0 0, node_base := Ptr 0 24, sync_id := hdr_sync_id h,
           mmap_used_length := used_file_size h, mmap_highwater := used_file_size h\<rparr>\<rparr>"

definition hdr_1248 :: mail_tree_header where
  "hdr_1248 = \<lparr>hdr_indexid = 305419896, hdr_sync_id = 0, used_file_size = 1248\<rparr>"

text \<open>The example file after a successful truncation to the minimum size.\<close>

definition shrunk_file :: sys where
  "shrunk_file =
     (open_file 1776 hdr_1248 [])
        \<lparr>tree := (tree (open_file 1776 hdr_1248 []))\<lparr>mmap_full_length := 1560\<rparr>,
         world := (world (open_file 1776 hdr_1248 []))
                    \<lparr>trace := [Ftruncate 3 1560], file_size := 1560,
                     file_hdr := hdr_1248\<lparr>hdr_sync_id := 1\<rparr>\<rparr>\<rparr>"

text \<open>An operation has reported a failure on the owning index when a message is recorded
  or the no-disk-space flag is set.\<close>

definition reported :: "sys \<Rightarrow> bool" where
  "reported s = (error (index s) \<noteq> None \<or> nodiskspace (index s))"


text \<open>The example file with a handle whose \<open>mmap_used_length\<close> is out of date.\<close>

definition stale_file :: sys where
  "stale_file =
     (open_file 1776 hdr_1248 [])
       \<lparr>tree := (tree (open_file 1776 hdr_1248 []))\<lparr>mmap_used_length := 1200\<rparr>\<rparr>"

text \<open>The example file after it has grown by 16 nodes and has been mapped again.\<close>

definition grown_file :: sys where
  "grown_file =
     \<lparr>tree = \<lparr>fd = 3, filepath = ''mail/.imap.index.tree'', anon_mmap = False,
               mmap_base = Ptr 1 0, mmap_full_length = 2160, mmap_used_length = 1248,
               mmap_highwater = 1248, header = Ptr 1 0, node_base = Ptr 1 24, sync_id = 1,
               modified = False\<rparr>,
      index = index0,
      world = \<lparr>file_size = 2160, file_hdr = hdr_1248\<lparr>hdr_sync_id := 1\<rparr>, file_linked = True,
                mappings = Map.empty(1 \<mapsto> \<lparr>m_len = 2160, m_anon = False, m_hdr = zero_header\<rparr>),
                next_addr = 2,
                trace = [File_set_size 3 2160, Msync (Ptr 0 0) 1248 False,
                         Munmap (Ptr 0 0) 1776, Mmap_rw_file 3],
                outcomes = []\<rparr>\<rparr>"

text \<open>
  A handle just opened on an empty tree file, with three records in the owning index;
  a \<open>set_lock\<close> callback that grants every lock; and a stand-in for \<open>mail_tree_insert\<close>
  that changes nothing and refuses one UID.
\<close>

definition new_file :: sys where
  "new_file =
     \<lparr>tree = \<lparr>fd = 3, filepath = ''mail/.imap.index.tree'', anon_mmap = False,
               mmap_base = NULL, mmap_full_length = 0, mmap_used_length = 0,
               mmap_highwater = 0, header = NULL, node_base = NULL, sync_id = 0,
               modified = False\<rparr>,
      index = index0\<lparr>records := [\<lparr>uid = 1, record_index = 0\<rparr>, \<lparr>uid = 2, record_index = 1\<rparr>,
                                   \<lparr>uid = 3, record_index = 2\<rparr>]\<rparr>,
      world = \<lparr>file_size = 0, file_hdr = zero_header, file_linked = True,
                mappings = Map.empty, next_addr = 0, trace = [], outcomes = []\<rparr>\<rparr>"

definition set_lock_ok :: set_lock_fn where
  "set_lock_ok t s = (True, s\<lparr>index := (index s)\<lparr>lock_type := t\<rparr>\<rparr>)"

definition insert_refusing :: "uint \<Rightarrow> insert_fn" where
  "insert_refusing bad u pos s = Inr (u \<noteq> bad, s)"

text \<open>An anonymous tree that has been initialised and verified, owned by an index that
  asks for \<open>mmap_invalidate\<close>.\<close>

definition anon_invalidate :: sys where
  "anon_invalidate =
     \<lparr>tree = \<lparr>fd = - 1, filepath = ''(in-memory tree index for mail)'', anon_mmap = True,
               mmap_base = Ptr 0 0, mmap_full_length = 1560, mmap_used_length = 48,
               mmap_highwater = 48, header = Ptr 0 0, node_base = Ptr 0 24, sync_id = 0,
               modified = False\<rparr>,
      index = index0\<lparr>mmap_invalidate := True, in_memory := True\<rparr>,
      world = \<lparr>file_size = 0, file_hdr = zero_header, file_linked = False,
                mappings = Map.empty(0 \<mapsto> \<lparr>m_len = 1560, m_anon = True,
                   m_hdr = \<lparr>hdr_indexid = 305419896, hdr_sync_id = 0, used_file_size = 48\<rparr>\<rparr>),
                next_addr = 1, trace = [], outcomes = []\<rparr>\<rparr>"

text \<open>Invariant 6 of the data model: the handle's base is a live mapping, or base, header
  and node base are all null.\<close>

definition handle_ok :: "sys \<Rightarrow> bool" where
  "handle_ok s =
     ((case mmap_base (tree s) of
         Ptr a off \<Rightarrow> mappings (world s) a \<noteq> None
       | _ \<Rightarrow> False) \<or>
      (mmap_base (tree s) = NULL \<and> header (tree s) = NULL \<and> node_base (tree s) = NULL))"

text \<open>The world after one more system call: the call is appended to the trace and its
  outcome is taken off the list.\<close>

definition logged :: "syscall \<Rightarrow> world \<Rightarrow> world" where
  "logged k w = w\<lparr>trace := trace w @ [k], outcomes := tl (outcomes w)\<rparr>"

text \<open>Whether \<open>_mail_tree_mmap_update\<close> starts with its invalidating \<open>msync\<close> (lines
  134-135), and the world after that step.\<close>

definition invalidating :: "sys \<Rightarrow> bool" where
  "invalidating s = (mmap_invalidate (index s) \<and> mmap_base (tree s) \<noteq> NULL)"

definition invalidated :: "sys \<Rightarrow> world" where
  "invalidated s =
     (if invalidating s
      then logged (Msync (mmap_base (tree s)) (mmap_used_length (tree s)) True) (world s)
      else world s)"

text \<open>The stale handle again, owned by an index with \<open>mmap_invalidate\<close> set, when the
  next system call fails with \<open>EIO\<close>.\<close>

definition stale_invalidate :: sys where
  "stale_invalidate =
     stale_file\<lparr>index := index0\<lparr>mmap_invalidate := True\<rparr>,
                world := (world stale_file)\<lparr>outcomes := [Some EIO]\<rparr>\<rparr>"



text \<open>The calls among \<open>ks\<close> that fail, when their outcomes are \<open>rs\<close> in order.\<close>

fun failures :: "syscall list \<Rightarrow> errno option list \<Rightarrow> syscall list" where
  "failures (k # ks) (Some e # rs) = k # failures ks rs"
| "failures (k # ks) (None # rs) = failures ks rs"
| "failures ks rs = []"

text \<open>
  From a world \<open>w\<close> to a later world \<open>w'\<close>: the calls made in between, whether \<open>w'\<close> is
  \<open>w\<close> after some calls (each call took its outcome off the list), and the calls in
  between that failed.
\<close>

definition calls_since :: "world \<Rightarrow> world \<Rightarrow> syscall list" where
  "calls_since w w' = drop (length (trace w)) (trace w')"

definition continues :: "world \<Rightarrow> world \<Rightarrow> bool" where
  "continues w w' =
     (trace w' = trace w @ calls_since w w' \<and>
      outcomes w' = drop (length (calls_since w w')) (outcomes w))"

definition failed_since :: "world \<Rightarrow> world \<Rightarrow> syscall list" where
  "failed_since w w' = failures (calls_since w w') (outcomes w)"


text \<open>If a call between \<open>w\<close> and \<open>w'\<close> failed, the index \<open>i\<close> holds a message or has the
  no-disk-space flag set.\<close>

definition recorded :: "world \<Rightarrow> world \<Rightarrow> mail_index \<Rightarrow> bool" where
  "recorded w w' i =
     (continues w w' \<and> (failed_since w w' \<noteq> [] \<longrightarrow> error i \<noteq> None \<or> nodiskspace i))"






section \<open>Properties\<close>

subsection \<open>Word arithmetic and frame lemmas\<close>

lemma unat_ucast_down: "unat (ucast (x :: 64 word) :: 32 word) = unat x mod 2 ^ 32"
  by transfer (simp add: take_bit_eq_mod nat_mod_distrib)

lemma unat_ucast_up: "unat (ucast (x :: 32 word) :: 64 word) = unat x"
  by transfer (simp add: take_bit_eq_mod nat_mod_distrib)

lemma unat_mod_node_small:
  fixes n x :: "64 word"
  assumes "0 < n" "n < 2 ^ 32"
  shows "unat (x mod n) < 2 ^ 32"
proof -
  have "unat n < 2 ^ 32" using assms(2) by (simp add: word_less_nat_alt)
  moreover have "0 < unat n" using assms(1) by (simp add: word_less_nat_alt)
  ultimately show ?thesis
    by (simp add: unat_mod) (meson less_trans mod_less_divisor)
qed

lemma extra_roundtrip:
  fixes n x :: "64 word"
  assumes "0 < n" "n < 2 ^ 32"
  shows "(ucast (ucast (x mod n) :: 32 word) :: 64 word) = x mod n"
  using unat_mod_node_small [OF assms, of x]
  by (simp add: word_unat_eq_iff unat_ucast_up unat_ucast_down)

lemma extra_is_zero:
  fixes n x :: "64 word"
  assumes "0 < n" "n < 2 ^ 32"
  shows "((ucast (x mod n) :: 32 word) = 0) = (x mod n = 0)"
  using unat_mod_node_small [OF assms, of x]
  by (simp add: word_unat_eq_iff unat_ucast_down)

lemma nat_sub_mod_ge:
  fixes F H N :: nat
  assumes "H + N \<le> F" "0 < N"
  shows "H + N \<le> F - (F - H) mod N"
proof -
  define r where "r = (F - H) mod N"
  define q where "q = (F - H) div N"
  have e: "F - H = q * N + r" by (simp add: q_def r_def)
  have "N \<le> F - H" using assms(1) by simp
  then have "0 < q" using assms(2) by (simp add: q_def div_greater_zero_iff)
  then have "N \<le> q * N" by simp
  then have "N + r \<le> F - H" using e by simp
  then have "H + N \<le> F - r" using assms(1) by simp
  then show ?thesis by (simp add: r_def)
qed

lemma sub_extra_ge:
  fixes full h n :: "64 word"
  assumes "h \<le> h + n" "h + n \<le> full" "0 < n"
  shows "h + n \<le> full - (full - h) mod n"
proof -
  have hn: "unat (h + n) = unat h + unat n" using assms(1) by (simp add: unat_plus_simple)
  have le: "unat h + unat n \<le> unat full" using assms(2) hn by (simp add: word_le_nat_alt)
  have npos: "0 < unat n" using assms(3) by (simp add: word_less_nat_alt)
  have hle: "h \<le> full" using le by (simp add: word_le_nat_alt)
  have d: "unat (full - h) = unat full - unat h" using hle by (simp add: unat_sub)
  have m: "unat ((full - h) mod n) = (unat full - unat h) mod unat n" by (simp add: unat_mod d)
  have k: "unat h + unat n \<le> unat full - (unat full - unat h) mod unat n"
    by (rule nat_sub_mod_ge [OF le npos])
  have "(unat full - unat h) mod unat n \<le> unat full - unat h" by (rule mod_less_eq_dividend)
  also have "\<dots> \<le> unat full" by (rule diff_le_self)
  finally have "unat ((full - h) mod n) \<le> unat full" unfolding m .
  then have "(full - h) mod n \<le> full" by (simp add: word_le_nat_alt)
  then have s: "unat (full - (full - h) mod n) = unat full - (unat full - unat h) mod unat n"
    by (simp add: unat_sub m)
  show ?thesis unfolding word_le_nat_alt s hn by (rule k)
qed


lemma sys_call_frame:
  "mappings (snd (sys_call k w)) = mappings w"
  "file_hdr (snd (sys_call k w)) = file_hdr w"
  "file_size (snd (sys_call k w)) = file_size w"
  "file_linked (snd (sys_call k w)) = file_linked w"
  "next_addr (snd (sys_call k w)) = next_addr w"
  "trace (snd (sys_call k w)) = trace w @ [k]"
  by (simp_all add: sys_call_def split: list.splits)

lemma sys_callE:
  assumes "sys_call k w = (e, w')"
  shows "mappings w' = mappings w" "file_hdr w' = file_hdr w" "file_size w' = file_size w"
    "file_linked w' = file_linked w" "next_addr w' = next_addr w" "trace w' = trace w @ [k]"
  using sys_call_frame [of k w] by (simp_all add: assms)


lemma sys_ftruncate_frame:
  "mappings (snd (sys_ftruncate f l w)) = mappings w"
  "file_hdr (snd (sys_ftruncate f l w)) = file_hdr w"
  "trace (snd (sys_ftruncate f l w)) = trace w @ [Ftruncate f l]"
proof -
  obtain e w' where c: "sys_call (Ftruncate f l) w = (e, w')"
    by (cases "sys_call (Ftruncate f l) w")
  note fr = sys_callE [OF c]
  show "mappings (snd (sys_ftruncate f l w)) = mappings w"
    by (cases e) (simp_all add: sys_ftruncate_def c fr)
  show "file_hdr (snd (sys_ftruncate f l w)) = file_hdr w"
    by (cases e) (simp_all add: sys_ftruncate_def c fr)
  show "trace (snd (sys_ftruncate f l w)) = trace w @ [Ftruncate f l]"
    by (cases e) (simp_all add: sys_ftruncate_def c fr)
qed

lemma tree_set_syscall_error_frame:
  "fst (tree_set_syscall_error f e s) = False"
  "tree (snd (tree_set_syscall_error f e s)) = tree s"
  "world (snd (tree_set_syscall_error f e s)) = world s"
  "inconsistent (index (snd (tree_set_syscall_error f e s))) = inconsistent (index s)"
  "flags (index (snd (tree_set_syscall_error f e s))) = flags (index s)"
  by (simp_all add: tree_set_syscall_error_def index_set_error_def)

lemma mmap_verify_truncate_eq:
  "mmap_verify_truncate x s =
     (let l = mmap_full_length (tree s) - ucast x;
          r = sys_ftruncate (fd (tree s)) l (world s);
          s1 = s\<lparr>tree := (tree s)\<lparr>mmap_full_length := l\<rparr>, world := snd r\<rparr>
      in case fst r of None \<Rightarrow> s1
         | Some e \<Rightarrow> snd (tree_set_syscall_error ''ftruncate()'' e s1))"
  by (cases "sys_ftruncate (fd (tree s)) (mmap_full_length (tree s) - ucast x) (world s)";
      cases "fst (sys_ftruncate (fd (tree s)) (mmap_full_length (tree s) - ucast x) (world s))")
     (simp_all add: mmap_verify_truncate_def Let_def)

lemma mmap_verify_truncate_frame:
  "tree (mmap_verify_truncate x s) =
     (tree s)\<lparr>mmap_full_length := mmap_full_length (tree s) - ucast x\<rparr>"
  "mappings (world (mmap_verify_truncate x s)) = mappings (world s)"
  "file_hdr (world (mmap_verify_truncate x s)) = file_hdr (world s)"
  "trace (world (mmap_verify_truncate x s)) =
     trace (world s) @ [Ftruncate (fd (tree s)) (mmap_full_length (tree s) - ucast x)]"
  "inconsistent (index (mmap_verify_truncate x s)) = inconsistent (index s)"
  by (simp_all add: mmap_verify_truncate_eq Let_def tree_set_syscall_error_frame
        sys_ftruncate_frame split: option.splits)


lemma load_hdr_cong:
  "mappings w' = mappings w \<Longrightarrow> file_hdr w' = file_hdr w \<Longrightarrow> load_hdr c w' p = load_hdr c w p"
  by (cases p) (simp_all add: load_hdr_def split: option.splits)

lemma mmap_verify_extra_frame:
  "tree (mmap_verify_extra c s) =
     (tree s)\<lparr>mmap_full_length := mmap_full_length (tree (mmap_verify_extra c s))\<rparr>"
  "mappings (world (mmap_verify_extra c s)) = mappings (world s)"
  "file_hdr (world (mmap_verify_extra c s)) = file_hdr (world s)"
  "inconsistent (index (mmap_verify_extra c s)) = inconsistent (index s)"
  by (simp_all add: mmap_verify_extra_def Let_def mmap_verify_truncate_frame)

lemma mmap_verify_extra_fields:
  "filepath (tree (mmap_verify_extra c s)) = filepath (tree s)"
  "mmap_base (tree (mmap_verify_extra c s)) = mmap_base (tree s)"
  "fd (tree (mmap_verify_extra c s)) = fd (tree s)"
  "anon_mmap (tree (mmap_verify_extra c s)) = anon_mmap (tree s)"
  by (simp_all add: mmap_verify_extra_def Let_def mmap_verify_truncate_frame)

lemma mmap_verify_extra_length:
  assumes "cfg_ok c"
  shows "mmap_full_length (tree (mmap_verify_extra c s)) =
           mmap_full_length (tree s) -
           (mmap_full_length (tree s) - sizeof_header c) mod sizeof_node c"
    and "trace (world (mmap_verify_extra c s)) =
           trace (world s) @
           (if (mmap_full_length (tree s) - sizeof_header c) mod sizeof_node c \<noteq> 0
            then [Ftruncate (fd (tree s))
                    (mmap_full_length (tree s) -
                     (mmap_full_length (tree s) - sizeof_header c) mod sizeof_node c)]
            else [])"
proof -
  have npos: "0 < sizeof_node c" and n32: "sizeof_node c < 2 ^ 32"
    using assms by (simp_all add: cfg_ok_def)
  note rt = extra_roundtrip [OF npos n32] and z = extra_is_zero [OF npos n32]
  show "mmap_full_length (tree (mmap_verify_extra c s)) =
           mmap_full_length (tree s) -
           (mmap_full_length (tree s) - sizeof_header c) mod sizeof_node c"
    by (simp add: mmap_verify_extra_def Let_def mmap_verify_truncate_frame rt z)
  show "trace (world (mmap_verify_extra c s)) =
           trace (world s) @
           (if (mmap_full_length (tree s) - sizeof_header c) mod sizeof_node c \<noteq> 0
            then [Ftruncate (fd (tree s))
                    (mmap_full_length (tree s) -
                     (mmap_full_length (tree s) - sizeof_header c) mod sizeof_node c)]
            else [])"
    by (simp add: mmap_verify_extra_def Let_def mmap_verify_truncate_frame rt z)
qed

lemma mmap_verify_extra_load:
  "load_hdr c' (world (mmap_verify_extra c s)) p = load_hdr c' (world s) p"
  by (rule load_hdr_cong) (simp_all add: mmap_verify_extra_frame)

lemma sys_unlink_frame:
  "mappings (sys_unlink p w) = mappings w"
  "file_hdr (sys_unlink p w) = file_hdr w"
  "trace (sys_unlink p w) = trace w @ [Unlink p]"
proof -
  obtain e w' where c: "sys_call (Unlink p) w = (e, w')"
    by (cases "sys_call (Unlink p) w")
  note fr = sys_callE [OF c]
  show "mappings (sys_unlink p w) = mappings w"
    by (cases e) (simp_all add: sys_unlink_def c fr)
  show "file_hdr (sys_unlink p w) = file_hdr w"
    by (cases e) (simp_all add: sys_unlink_def c fr)
  show "trace (sys_unlink p w) = trace w @ [Unlink p]"
    by (cases e) (simp_all add: sys_unlink_def c fr)
qed

lemma mail_tree_set_corrupted_frame:
  "fst (mail_tree_set_corrupted why s) = False"
  "tree (snd (mail_tree_set_corrupted why s)) = tree s"
  "inconsistent (index (snd (mail_tree_set_corrupted why s)))"
  "error (index (snd (mail_tree_set_corrupted why s))) = Some (Corrupted (filepath (tree s)) why)"
  "trace (world (snd (mail_tree_set_corrupted why s))) = trace (world s) @ [Unlink (filepath (tree s))]"
  by (simp_all add: mail_tree_set_corrupted_def Let_def index_set_error_def sys_unlink_frame)

lemma freshly_mapped_load:
  assumes ok: "cfg_ok c" and fm: "freshly_mapped s"
    and big: "\<not> mmap_full_length (tree s) < sizeof_header c + sizeof_node c"
  shows "\<exists>hdr. load_hdr c (world s) (mmap_base (tree s)) = Some hdr"
proof -
  have hn: "sizeof_header c \<le> sizeof_header c + sizeof_node c" and npos: "0 < sizeof_node c"
    using ok by (simp_all add: cfg_ok_def)
  have ge: "sizeof_header c + sizeof_node c \<le> mmap_full_length (tree s)" using big by simp
  have hle: "sizeof_header c \<le> mmap_full_length (tree s)" using hn ge by (rule order_trans)
  have "sizeof_header c + sizeof_node c \<noteq> 0"
    using hn npos by (metis add.right_neutral add_cancel_left_left order_less_irrefl word_le_0_iff word_coorder.extremum_uniqueI)
  then have nz: "mmap_full_length (tree s) \<noteq> 0" using ge by auto
  show ?thesis
    using fm nz hle
    by (auto simp: freshly_mapped_def load_hdr_def split: ptr.splits option.splits)
qed


lemma store_hdr_load:
  assumes "load_hdr c w p = Some h"
  shows "\<exists>w'. store_hdr c p h' w = Some w' \<and> load_hdr c w' p = Some h' \<and>
              file_size w' = file_size w \<and> trace w' = trace w \<and> outcomes w' = outcomes w \<and>
              file_linked w' = file_linked w"
  using assms
  by (cases p) (auto simp add: load_hdr_def store_hdr_def split: option.splits if_splits)

lemma bump_sync_id_ok:
  assumes "load_hdr c (world s) (header (tree s)) = Some h"
  shows "\<exists>s'. bump_sync_id c s = Some s' \<and> tree s' = tree s \<and> index s' = index s \<and>
              load_hdr c (world s') (header (tree s)) = Some (h\<lparr>hdr_sync_id := hdr_sync_id h + 1\<rparr>) \<and>
              file_size (world s') = file_size (world s) \<and>
              trace (world s') = trace (world s) \<and>
              outcomes (world s') = outcomes (world s)"
proof -
  obtain w' where w: "store_hdr c (header (tree s)) (h\<lparr>hdr_sync_id := hdr_sync_id h + 1\<rparr>) (world s) = Some w'"
      "load_hdr c w' (header (tree s)) = Some (h\<lparr>hdr_sync_id := hdr_sync_id h + 1\<rparr>)"
      "file_size w' = file_size (world s)" "trace w' = trace (world s)"
      "outcomes w' = outcomes (world s)"
    using store_hdr_load [OF assms, of "h\<lparr>hdr_sync_id := hdr_sync_id h + 1\<rparr>"] by blast
  show ?thesis
    by (simp add: bump_sync_id_def assms w)
qed

lemma sys_ftruncate_r:
  "fst (sys_ftruncate f l w) = next_call_fails w"
  "trace (snd (sys_ftruncate f l w)) = trace w @ [Ftruncate f l]"
  "mappings (snd (sys_ftruncate f l w)) = mappings w"
  "file_hdr (snd (sys_ftruncate f l w)) = file_hdr w"
  "file_size (snd (sys_ftruncate f l w)) = (if next_call_fails w = None then l else file_size w)"
  by (simp_all add: sys_ftruncate_def sys_call_def next_call_fails_def split: list.splits option.splits)

lemma mail_tree_truncate_shrink:
  assumes lk: "lock_type (index s) = MAIL_LOCK_EXCLUSIVE"
    and nanon: "\<not> anon_mmap (tree s)"
    and big: "MAIL_TREE_MIN_SIZE c < mmap_full_length (tree s)"
    and thr: "mmap_full_length (tree s) div 100 * of_nat (INDEX_TRUNCATE_PERCENTAGE c)
                < mmap_full_length (tree s) - mmap_used_length (tree s)"
    and hdr: "load_hdr c (world s) (header (tree s)) = Some h"
  shows "\<exists>s'. mail_tree_truncate c s = Inr s' \<and>
     tree s' = (tree s)\<lparr>mmap_full_length := truncate_target c s\<rparr> \<and>
     trace (world s') = trace (world s) @ [Ftruncate (fd (tree s)) (truncate_target c s)] \<and>
     load_hdr c (world s') (header (tree s)) = Some (h\<lparr>hdr_sync_id := hdr_sync_id h + 1\<rparr>) \<and>
     file_size (world s') =
       (if next_call_fails (world s) = None then truncate_target c s else file_size (world s)) \<and>
     index s' = (case next_call_fails (world s) of
                   None \<Rightarrow> index s
                 | Some e \<Rightarrow> index (snd (tree_set_syscall_error ''ftruncate()'' e s)))"
proof -
  define s1 where "s1 = s\<lparr>tree := (tree s)\<lparr>mmap_full_length := truncate_target c s\<rparr>\<rparr>"
  define r where "r = sys_ftruncate (fd (tree s)) (truncate_target c s) (world s)"
  define s2 where "s2 = (case fst r of
      Some e \<Rightarrow> snd (tree_set_syscall_error ''ftruncate()'' e (s1\<lparr>world := snd r\<rparr>))
    | None \<Rightarrow> s1\<lparr>world := snd r\<rparr>)"
  have s2': "(case sys_ftruncate (fd (tree s1)) (mmap_full_length (tree s1)) (world s1) of
                (Some e, w) \<Rightarrow> snd (tree_set_syscall_error ''ftruncate()'' e (s1\<lparr>world := w\<rparr>))
              | (None, w) \<Rightarrow> s1\<lparr>world := w\<rparr>) = s2"
    by (cases r; cases "fst r") (simp_all add: s2_def r_def s1_def)
  have nle: "\<not> mmap_full_length (tree s) \<le> MAIL_TREE_MIN_SIZE c"
    using big by (simp add: not_le)
  have mt: "mail_tree_truncate c s = (case bump_sync_id c s2 of None \<Rightarrow> Inl Fault | Some s3 \<Rightarrow> Inr s3)"
    using lk nanon nle thr
    unfolding mail_tree_truncate_def Let_def s2' [unfolded s1_def]
    by simp
  have fr: "fst r = next_call_fails (world s)"
    by (simp add: r_def sys_ftruncate_r)
  have t2: "tree s2 = (tree s)\<lparr>mmap_full_length := truncate_target c s\<rparr>"
    by (cases "fst r") (simp_all add: s2_def s1_def tree_set_syscall_error_frame)
  have w2: "world s2 = snd r"
    by (cases "fst r") (simp_all add: s2_def s1_def tree_set_syscall_error_frame)
  have i2: "index s2 = (case next_call_fails (world s) of
                   None \<Rightarrow> index s
                 | Some e \<Rightarrow> index (snd (tree_set_syscall_error ''ftruncate()'' e s)))"
    by (cases "next_call_fails (world s)")
       (simp_all add: s2_def s1_def fr tree_set_syscall_error_def index_set_error_def)
  have h2: "load_hdr c (world s2) (header (tree s2)) = Some h"
    using hdr by (simp add: t2 w2 r_def load_hdr_cong [OF sys_ftruncate_r(3) sys_ftruncate_r(4)])
  obtain s3 where s3: "bump_sync_id c s2 = Some s3" "tree s3 = tree s2" "index s3 = index s2"
      "load_hdr c (world s3) (header (tree s2)) = Some (h\<lparr>hdr_sync_id := hdr_sync_id h + 1\<rparr>)"
      "file_size (world s3) = file_size (world s2)" "trace (world s3) = trace (world s2)"
    using bump_sync_id_ok [OF h2] by blast
  show ?thesis
    using s3 by (simp add: mt t2 i2 w2 r_def sys_ftruncate_r)
qed

lemma sys_call_eq: "sys_call k w = (next_call_fails w, logged k w)"
proof (cases "outcomes w")
  case Nil
  then have "w\<lparr>trace := trace w @ [k]\<rparr> = w\<lparr>trace := trace w @ [k], outcomes := []\<rparr>"
    by (cases w) simp
  then show ?thesis using Nil by (simp add: sys_call_def next_call_fails_def logged_def)
next
  case (Cons r rs)
  then show ?thesis
    by (cases r) (simp_all add: sys_call_def next_call_fails_def logged_def)
qed

lemma logged_fields:
  "trace (logged k w) = trace w @ [k]" "outcomes (logged k w) = tl (outcomes w)"
  "mappings (logged k w) = mappings w" "file_hdr (logged k w) = file_hdr w"
  "file_size (logged k w) = file_size w" "file_linked (logged k w) = file_linked w"
  "next_addr (logged k w) = next_addr w"
  by (simp_all add: logged_def)

subsection \<open>The example states\<close>

lemma open_file_fields:
  "lock_type (index (open_file len h outs)) = MAIL_LOCK_EXCLUSIVE"
  "anon_mmap (tree (open_file len h outs)) = False"
  "mmap_full_length (tree (open_file len h outs)) = len"
  "mmap_used_length (tree (open_file len h outs)) = used_file_size h"
  "header (tree (open_file len h outs)) = Ptr 0 0"
  "mmap_base (tree (open_file len h outs)) = Ptr 0 0"
  "fd (tree (open_file len h outs)) = 3"
  "filepath (tree (open_file len h outs)) = ''mail/.imap.index.tree''"
  "sync_id (tree (open_file len h outs)) = hdr_sync_id h"
  "modified (tree (open_file len h outs)) = False"
  "index (open_file len h outs) = index0"
  "error (index (open_file len h outs)) = None"
  "nodiskspace (index (open_file len h outs)) = False"
  "inconsistent (index (open_file len h outs)) = False"
  "trace (world (open_file len h outs)) = []"
  "outcomes (world (open_file len h outs)) = outs"
  "file_size (world (open_file len h outs)) = len"
  "24 \<le> len \<Longrightarrow> load_hdr cfg0 (world (open_file len h outs)) (Ptr 0 0) = Some h"
  by (simp_all add: open_file_def mapped_file_def file_world_def index0_def load_hdr_def cfg0_def)

lemma hdr_1248_fields:
  "hdr_sync_id hdr_1248 = 0" "used_file_size hdr_1248 = 1248" "hdr_indexid hdr_1248 = 305419896"
  by (simp_all add: hdr_1248_def)

lemma index0_fields:
  "lock_type index0 = MAIL_LOCK_EXCLUSIVE" "error index0 = None" "nodiskspace index0 = False"
  "inconsistent index0 = False" "mmap_invalidate index0 = False" "messages_count index0 = 16"
  "flags index0 = 0"
  by (simp_all add: index0_def)

lemma cfg0_fields:
  "sizeof_header cfg0 = 24" "sizeof_node cfg0 = 24" "MAIL_TREE_MIN_SIZE cfg0 = 1560"
  "INDEX_TRUNCATE_PERCENTAGE cfg0 = 30" "INDEX_TRUNCATE_KEEP_PERCENTAGE cfg0 = 10"
  "INDEX_GROW_PERCENTAGE cfg0 = 10" "INDEX_MIN_RECORDS_COUNT cfg0 = 64"
  by (simp_all add: cfg0_def MAIL_TREE_MIN_SIZE_def)

subsection \<open>Verification of a fresh mapping\<close>

text \<open>
  C1. For a freshly mapped tree file and well-formed sizes, \<open>mmap_verify\<close> never reads
  outside the mapping (it does not fault). A mapping shorter than a header plus one node
  is rejected: \<open>FALSE\<close>, handle unchanged, "Too small" recorded. Otherwise the header is
  readable, \<open>mmap_full_length\<close> is reduced by
  \<open>(mmap_full_length - sizeof(header)) mod sizeof(node)\<close>, \<open>ftruncate\<close> to that length is
  called exactly when the remainder is not zero, and verification goes on: it returns
  \<open>FALSE\<close> and signals corruption (index marked inconsistent, "Corrupted" recorded, file
  unlinked) if and only if \<open>used_file_size\<close> exceeds the reduced length, or is smaller
  than a header, or is not a header plus a whole number of nodes; when it returns \<open>TRUE\<close>
  the inconsistent flag is as before and nothing is unlinked.
\<close>

theorem mmap_verify_checks:
  assumes ok: "cfg_ok c" and fm: "freshly_mapped s"
  shows "mmap_verify c s \<noteq> Inl Fault \<and>
    (if mmap_full_length (tree s) < sizeof_header c + sizeof_node c
     then \<exists>s'. mmap_verify c s = Inr (False, s') \<and> tree s' = tree s \<and>
            error (index s') = Some (Too_small (filepath (tree s)))
     else \<exists>hdr b s'.
            load_hdr c (world s) (mmap_base (tree s)) = Some hdr \<and>
            mmap_verify c s = Inr (b, s') \<and>
            mmap_full_length (tree s') =
              mmap_full_length (tree s) -
              (mmap_full_length (tree s) - sizeof_header c) mod sizeof_node c \<and>
            trace (world s') =
              trace (world s) @
              (if (mmap_full_length (tree s) - sizeof_header c) mod sizeof_node c \<noteq> 0
               then [Ftruncate (fd (tree s)) (mmap_full_length (tree s'))] else []) @
              (if b then [] else [Unlink (filepath (tree s))]) \<and>
            (\<not> b) =
              (mmap_full_length (tree s') < used_file_size hdr \<or>
               used_file_size hdr < sizeof_header c \<or>
               (used_file_size hdr - sizeof_header c) mod sizeof_node c \<noteq> 0) \<and>
            (if b then inconsistent (index s') = inconsistent (index s)
             else inconsistent (index s') \<and>
                  (\<exists>why. error (index s') = Some (Corrupted (filepath (tree s)) why))))"
proof (cases "mmap_full_length (tree s) < sizeof_header c + sizeof_node c")
  case True
  then show ?thesis
    by (simp add: mmap_verify_def Let_def index_set_error_def)
next
  case False
  define s1 where "s1 = mmap_verify_extra c s"
  obtain hdr where ld: "load_hdr c (world s) (mmap_base (tree s)) = Some hdr"
    using freshly_mapped_load [OF ok fm False] by blast
  have len1: "mmap_full_length (tree s1) =
      mmap_full_length (tree s) -
      (mmap_full_length (tree s) - sizeof_header c) mod sizeof_node c"
    unfolding s1_def by (rule mmap_verify_extra_length(1) [OF ok])
  have fld: "filepath (tree s1) = filepath (tree s)" "mmap_base (tree s1) = mmap_base (tree s)"
    by (simp_all add: s1_def mmap_verify_extra_fields)
  have ld1: "load_hdr c (world s1) (mmap_base (tree s1)) = Some hdr"
    using ld by (simp add: s1_def mmap_verify_extra_fields mmap_verify_extra_load)
  have tr1: "trace (world s1) = trace (world s) @
       (if (mmap_full_length (tree s) - sizeof_header c) mod sizeof_node c \<noteq> 0
        then [Ftruncate (fd (tree s)) (mmap_full_length (tree s1))] else [])"
    unfolding len1 unfolding s1_def by (rule mmap_verify_extra_length(2) [OF ok])
  have inc1: "inconsistent (index s1) = inconsistent (index s)"
    by (simp add: s1_def mmap_verify_extra_frame)
  have mv: "mmap_verify c s =
     (if used_file_size hdr > mmap_full_length (tree s1) then
        Inr (mail_tree_set_corrupted
               (Used_larger_than_file (used_file_size hdr) (mmap_full_length (tree s1))) s1)
      else if used_file_size hdr < sizeof_header c \<or>
              (used_file_size hdr - sizeof_header c) mod sizeof_node c \<noteq> 0 then
        Inr (mail_tree_set_corrupted (Invalid_used_file_size (used_file_size hdr)) s1)
      else
        Inr (True, s1\<lparr>tree := (tree s1)
               \<lparr>header := mmap_base (tree s1),
                node_base := ptr_add (mmap_base (tree s1)) (sizeof_header c),
                sync_id := hdr_sync_id hdr,
                mmap_used_length := used_file_size hdr,
                mmap_highwater := used_file_size hdr\<rparr>\<rparr>))"
    using False ld1 unfolding mmap_verify_def Let_def s1_def
    by simp
  consider (larger) "used_file_size hdr > mmap_full_length (tree s1)"
    | (invalid) "\<not> used_file_size hdr > mmap_full_length (tree s1)"
        "used_file_size hdr < sizeof_header c \<or>
         (used_file_size hdr - sizeof_header c) mod sizeof_node c \<noteq> 0"
    | (good) "\<not> used_file_size hdr > mmap_full_length (tree s1)"
        "\<not> (used_file_size hdr < sizeof_header c \<or>
         (used_file_size hdr - sizeof_header c) mod sizeof_node c \<noteq> 0)"
    by argo
  then show ?thesis
  proof cases
    case larger
    let ?r = "mail_tree_set_corrupted
               (Used_larger_than_file (used_file_size hdr) (mmap_full_length (tree s1))) s1"
    have e: "mmap_verify c s = Inr (False, snd ?r)"
      using larger mv mail_tree_set_corrupted_frame(1) [of _ s1]
      by (metis prod.collapse)
    show ?thesis
      using False larger ld len1 [symmetric] tr1 fld
      by (auto simp add: e mail_tree_set_corrupted_frame)
  next
    case invalid
    let ?r = "mail_tree_set_corrupted (Invalid_used_file_size (used_file_size hdr)) s1"
    have e: "mmap_verify c s = Inr (False, snd ?r)"
      using invalid mv mail_tree_set_corrupted_frame(1) [of _ s1]
      by (metis prod.collapse)
    show ?thesis
      using False invalid ld len1 [symmetric] tr1 fld
      by (auto simp add: e mail_tree_set_corrupted_frame)
  next
    case good
    show ?thesis
      using False good ld len1 [symmetric] tr1 inc1
      by (auto simp add: mv)
  qed
qed


theorem mmap_verify_checks_witness:
  "cfg_ok cfg0 \<and>
   freshly_mapped (mapped_file 101 \<lparr>hdr_indexid = 305419896, hdr_sync_id = 7, used_file_size = 72\<rparr> []) \<and>
   (\<exists>s'. mmap_verify cfg0 (mapped_file 101 \<lparr>hdr_indexid = 305419896, hdr_sync_id = 7, used_file_size = 72\<rparr> [])
            = Inr (True, s') \<and>
         mmap_full_length (tree s') = 96 \<and> trace (world s') = [Ftruncate 3 96])"
proof -
  let ?s = "mapped_file 101 \<lparr>hdr_indexid = 305419896, hdr_sync_id = 7, used_file_size = 72\<rparr> []"
  have ok: "cfg_ok cfg0" by (simp add: cfg_ok_def cfg0_def)
  have fm: "freshly_mapped ?s" by (simp add: freshly_mapped_def mapped_file_def file_world_def)
  have ld: "load_hdr cfg0 (world ?s) (mmap_base (tree ?s)) =
     Some \<lparr>hdr_indexid = 305419896, hdr_sync_id = 7, used_file_size = 72\<rparr>"
    by (simp add: load_hdr_def mapped_file_def file_world_def cfg0_def)
  have sz: "sizeof_header cfg0 = 24" "sizeof_node cfg0 = 24" "mmap_full_length (tree ?s) = 101"
    "trace (world ?s) = []" "fd (tree ?s) = 3"
    by (simp_all add: cfg0_def mapped_file_def file_world_def)
  show ?thesis
    using mmap_verify_checks [OF ok fm] ok fm
    by (auto simp add: ld sz)
qed


subsection \<open>What a failed verification leaves behind\<close>

text \<open>
  C5, as the code has it. Whenever \<open>mmap_verify\<close> returns \<open>FALSE\<close>, its last call is
  \<open>unlink\<close> of the tree file. When the failing check is one of the \<open>used_file_size\<close>
  checks, the owning index is marked inconsistent and a "Corrupted" message is recorded;
  when it is the too-small-file check, a "Too small" message is recorded and the
  inconsistent flag is left as it was.
\<close>

theorem mmap_verify_failure:
  assumes "mmap_verify c s = Inr (False, s')"
  shows "(\<exists>pre. trace (world s') = pre @ [Unlink (filepath (tree s))]) \<and>
    (if mmap_full_length (tree s) < sizeof_header c + sizeof_node c
     then error (index s') = Some (Too_small (filepath (tree s))) \<and>
          inconsistent (index s') = inconsistent (index s)
     else inconsistent (index s') \<and>
          (\<exists>why. error (index s') = Some (Corrupted (filepath (tree s)) why)))"
proof (cases "mmap_full_length (tree s) < sizeof_header c + sizeof_node c")
  case True
  then have "s' = (s\<lparr>index := index_set_error (Too_small (filepath (tree s))) (index s)\<rparr>)
                   \<lparr>world := sys_unlink (filepath (tree s)) (world s)\<rparr>"
    using assms by (simp add: mmap_verify_def Let_def)
  then show ?thesis using True
    by (simp add: index_set_error_def sys_unlink_frame)
next
  case False
  define s1 where "s1 = mmap_verify_extra c s"
  have fp: "filepath (tree s1) = filepath (tree s)"
    by (simp add: s1_def mmap_verify_extra_fields)
  show ?thesis
  proof (cases "load_hdr c (world s1) (mmap_base (tree s1))")
    case None
    then have "mmap_verify c s = Inl Fault"
      using False by (simp add: mmap_verify_def Let_def s1_def)
    then show ?thesis using assms by simp
  next
    case (Some hdr)
    have "\<exists>why. mail_tree_set_corrupted why s1 = (False, s')"
      using assms False Some
      by (simp add: mmap_verify_def Let_def s1_def split: if_splits) blast+
    then obtain why where r: "s' = snd (mail_tree_set_corrupted why s1)"
      by (metis snd_conv)
    show ?thesis using False
      by (simp add: r mail_tree_set_corrupted_frame fp)
  qed
qed

theorem mmap_verify_failure_witness:
  "mmap_verify cfg0 corrupt_file =
     Inr (False, corrupt_file
            \<lparr>index := index0\<lparr>inconsistent := True,
                    error := Some (Corrupted ''mail/.imap.index.tree''
                                     (Used_larger_than_file 4096 96))\<rparr>,
             world := (world corrupt_file)
                        \<lparr>trace := [Unlink ''mail/.imap.index.tree''], file_linked := False\<rparr>\<rparr>) \<and>
   (\<exists>pre. trace (world (corrupt_file
            \<lparr>index := index0\<lparr>inconsistent := True,
                    error := Some (Corrupted ''mail/.imap.index.tree''
                                     (Used_larger_than_file 4096 96))\<rparr>,
             world := (world corrupt_file)
                        \<lparr>trace := [Unlink ''mail/.imap.index.tree''], file_linked := False\<rparr>\<rparr>)) =
          pre @ [Unlink (filepath (tree corrupt_file))])"
proof -
  have e: "mmap_verify cfg0 corrupt_file =
     Inr (False, corrupt_file
            \<lparr>index := index0\<lparr>inconsistent := True,
                    error := Some (Corrupted ''mail/.imap.index.tree''
                                     (Used_larger_than_file 4096 96))\<rparr>,
             world := (world corrupt_file)
                        \<lparr>trace := [Unlink ''mail/.imap.index.tree''], file_linked := False\<rparr>\<rparr>)"
    by (simp add: mmap_verify_def mmap_verify_extra_def corrupt_file_def mapped_file_def
        cfg0_def Let_def load_hdr_def mail_tree_set_corrupted_def index_set_error_def sys_unlink_def
        sys_call_def file_world_def index0_def)
  show ?thesis using mmap_verify_failure [OF e] e by simp
qed

text \<open>
  The claim as stated fails at the too-small-file check: verification of a 10-byte file
  fails, the file is unlinked, and the owning index is not marked inconsistent.
\<close>

theorem too_small_not_inconsistent:
  "mmap_verify cfg0 too_small_file =
     Inr (False, too_small_file
            \<lparr>index := index0\<lparr>error := Some (Too_small ''mail/.imap.index.tree'')\<rparr>,
             world := (file_world 10 zero_header [])
                        \<lparr>trace := [Unlink ''mail/.imap.index.tree''], file_linked := False\<rparr>\<rparr>) \<and>
   \<not> inconsistent (index (too_small_file
            \<lparr>index := index0\<lparr>error := Some (Too_small ''mail/.imap.index.tree'')\<rparr>,
             world := (file_world 10 zero_header [])
                        \<lparr>trace := [Unlink ''mail/.imap.index.tree''], file_linked := False\<rparr>\<rparr>))"
  by (simp add: mmap_verify_def too_small_file_def mapped_file_def cfg0_def Let_def
      index_set_error_def sys_unlink_def sys_call_def file_world_def index0_def)

subsection \<open>Truncation\<close>

text \<open>
  C3, as the code has it. With the owning index exclusively locked (the function asserts
  it), \<open>_mail_tree_truncate\<close> changes nothing when the tree is anonymous or
  \<open>mmap_full_length \<le> MIN_SIZE\<close>. Otherwise, with
  \<open>empty = mmap_full_length - mmap_used_length\<close>, it shrinks if and only if
  \<open>empty > (mmap_full_length div 100) * TRUNCATE_PERCENTAGE\<close>: the division by 100 comes
  first. When it shrinks (and \<open>tree->header\<close> is readable) the new length is
  \<open>mmap_used_length + empty * TRUNCATE_KEEP_PERCENTAGE div 100\<close>, rounded down to node
  alignment and raised to \<open>MIN_SIZE\<close> when below it; \<open>ftruncate\<close> is called
  with that length, and \<open>header.sync_id\<close> is incremented.
\<close>

theorem mail_tree_truncate_spec:
  assumes lk: "lock_type (index s) = MAIL_LOCK_EXCLUSIVE"
  shows
   "(let full = mmap_full_length (tree s);
         used = mmap_used_length (tree s);
         empty = full - used;
         l1 = used + empty * of_nat (INDEX_TRUNCATE_KEEP_PERCENTAGE c) div 100;
         l2 = l1 - (l1 - sizeof_header c) mod sizeof_node c;
         target = (if l2 < MAIL_TREE_MIN_SIZE c then MAIL_TREE_MIN_SIZE c else l2)
     in if anon_mmap (tree s) \<or> full \<le> MAIL_TREE_MIN_SIZE c then mail_tree_truncate c s = Inr s
        else if full div 100 * of_nat (INDEX_TRUNCATE_PERCENTAGE c) < empty then
          (\<forall>h. load_hdr c (world s) (header (tree s)) = Some h \<longrightarrow>
            (\<exists>s'. mail_tree_truncate c s = Inr s' \<and>
                  tree s' = (tree s)\<lparr>mmap_full_length := target\<rparr> \<and>
                  trace (world s') = trace (world s) @ [Ftruncate (fd (tree s)) target] \<and>
                  (next_call_fails (world s) = None \<longrightarrow> file_size (world s') = target) \<and>
                  load_hdr c (world s') (header (tree s')) =
                    Some (h\<lparr>hdr_sync_id := hdr_sync_id h + 1\<rparr>)))
        else mail_tree_truncate c s = Inr s)"
proof -
  have noop: "anon_mmap (tree s) \<or> mmap_full_length (tree s) \<le> MAIL_TREE_MIN_SIZE c \<Longrightarrow>
      mail_tree_truncate c s = Inr s"
    using lk by (auto simp add: mail_tree_truncate_def)
  have keep: "\<not> mmap_full_length (tree s) div 100 * of_nat (INDEX_TRUNCATE_PERCENTAGE c)
                 < mmap_full_length (tree s) - mmap_used_length (tree s) \<Longrightarrow>
      mail_tree_truncate c s = Inr s"
    using lk by (simp add: mail_tree_truncate_def Let_def)
  have shrink: "\<exists>s'. mail_tree_truncate c s = Inr s' \<and>
                  tree s' = (tree s)\<lparr>mmap_full_length := truncate_target c s\<rparr> \<and>
                  trace (world s') = trace (world s) @ [Ftruncate (fd (tree s)) (truncate_target c s)] \<and>
                  (next_call_fails (world s) = None \<longrightarrow> file_size (world s') = truncate_target c s) \<and>
                  load_hdr c (world s') (header (tree s')) =
                    Some (h\<lparr>hdr_sync_id := hdr_sync_id h + 1\<rparr>)"
    if a: "\<not> anon_mmap (tree s)" "\<not> mmap_full_length (tree s) \<le> MAIL_TREE_MIN_SIZE c"
      "mmap_full_length (tree s) div 100 * of_nat (INDEX_TRUNCATE_PERCENTAGE c)
         < mmap_full_length (tree s) - mmap_used_length (tree s)"
      "load_hdr c (world s) (header (tree s)) = Some h" for h
  proof -
    have big: "MAIL_TREE_MIN_SIZE c < mmap_full_length (tree s)" using a(2) by (simp add: not_le)
    obtain s' where s': "mail_tree_truncate c s = Inr s'"
      "tree s' = (tree s)\<lparr>mmap_full_length := truncate_target c s\<rparr>"
      "trace (world s') = trace (world s) @ [Ftruncate (fd (tree s)) (truncate_target c s)]"
      "load_hdr c (world s') (header (tree s)) = Some (h\<lparr>hdr_sync_id := hdr_sync_id h + 1\<rparr>)"
      "file_size (world s') =
         (if next_call_fails (world s) = None then truncate_target c s else file_size (world s))"
      using mail_tree_truncate_shrink [OF lk a(1) big a(3) a(4)] by blast
    show ?thesis using s' by simp
  qed
  show ?thesis
    unfolding Let_def
    using noop keep shrink
    by (simp add: truncate_target_def Let_def)
qed


theorem mail_tree_truncate_spec_witness:
  "lock_type (index (open_file 1776 hdr_1248 [None])) = MAIL_LOCK_EXCLUSIVE \<and>
   load_hdr cfg0 (world (open_file 1776 hdr_1248 [None]))
     (header (tree (open_file 1776 hdr_1248 [None]))) = Some hdr_1248 \<and>
   (\<exists>s'. mail_tree_truncate cfg0 (open_file 1776 hdr_1248 [None]) = Inr s' \<and>
         tree s' = (tree (open_file 1776 hdr_1248 [None]))\<lparr>mmap_full_length := 1560\<rparr> \<and>
         trace (world s') = [Ftruncate 3 1560] \<and>
         file_size (world s') = 1560)"
proof -
  let ?s = "open_file 1776 hdr_1248 [None]"
  have lk: "lock_type (index ?s) = MAIL_LOCK_EXCLUSIVE"
    by (simp add: open_file_fields index0_fields)
  have ld: "load_hdr cfg0 (world ?s) (header (tree ?s)) = Some hdr_1248"
    by (simp add: open_file_fields)
  have ff: "next_call_fails (world ?s) = None"
    by (simp add: next_call_fails_def open_file_fields)
  have u: "used_file_size hdr_1248 = 1248" by (simp add: hdr_1248_def)
  show ?thesis
    using mail_tree_truncate_spec [OF lk, of cfg0] ld lk
    by (auto simp add: Let_def open_file_fields index0_fields cfg0_fields ff u)
qed

text \<open>
  The claim as stated compares with \<open>mmap_full_length * TRUNCATE_PERCENTAGE div 100\<close>.
  For a file of 1776 bytes with 1248 in use and 30 percent, the empty space (528) is not
  above that value (532), yet the code truncates the file to 1560 bytes, because
  \<open>1776 div 100 * 30 = 510\<close>.
\<close>

theorem truncate_threshold_counterexample:
  "\<not> (mmap_full_length (tree (open_file 1776 hdr_1248 [])) *
        of_nat (INDEX_TRUNCATE_PERCENTAGE cfg0) div 100
        < mmap_full_length (tree (open_file 1776 hdr_1248 [])) -
          mmap_used_length (tree (open_file 1776 hdr_1248 []))) \<and>
   mail_tree_truncate cfg0 (open_file 1776 hdr_1248 []) = Inr shrunk_file \<and>
   file_size (world (open_file 1776 hdr_1248 [])) = 1776 \<and>
   file_size (world shrunk_file) = 1560"
  by (simp add: shrunk_file_def mail_tree_truncate_def open_file_def mapped_file_def
      file_world_def cfg0_def index0_def hdr_1248_def MAIL_TREE_MIN_SIZE_def truncate_target_def
      Let_def sys_ftruncate_def sys_call_def bump_sync_id_def load_hdr_def store_hdr_def)

text \<open>
  C10. When \<open>_mail_tree_truncate\<close> decides to shrink and its \<open>ftruncate\<close> call fails with
  \<open>errno = e\<close>, the function still returns normally (it returns nothing), the handle's
  \<open>mmap_full_length\<close> is the reduced target, \<open>header.sync_id\<close> is incremented, and the
  file keeps its length. The failure shows only on the owning index: the \<open>nodiskspace\<close> flag
  for a disk-full \<open>errno\<close>, the recorded message otherwise.
\<close>

theorem mail_tree_truncate_ftruncate_fails:
  assumes lk: "lock_type (index s) = MAIL_LOCK_EXCLUSIVE"
    and nanon: "\<not> anon_mmap (tree s)"
    and big: "MAIL_TREE_MIN_SIZE c < mmap_full_length (tree s)"
    and thr: "mmap_full_length (tree s) div 100 * of_nat (INDEX_TRUNCATE_PERCENTAGE c)
                < mmap_full_length (tree s) - mmap_used_length (tree s)"
    and hdr: "load_hdr c (world s) (header (tree s)) = Some h"
    and fails: "outcomes (world s) = Some e # rest"
  shows "\<exists>s'. mail_tree_truncate c s = Inr s' \<and>
     tree s' = (tree s)\<lparr>mmap_full_length := truncate_target c s\<rparr> \<and>
     trace (world s') = trace (world s) @ [Ftruncate (fd (tree s)) (truncate_target c s)] \<and>
     file_size (world s') = file_size (world s) \<and>
     load_hdr c (world s') (header (tree s')) = Some (h\<lparr>hdr_sync_id := hdr_sync_id h + 1\<rparr>) \<and>
     index s' =
       (if ENOSPACE e then (index s)\<lparr>nodiskspace := True\<rparr>
        else (index s)\<lparr>error := Some (Syscall_failed ''ftruncate()'' (filepath (tree s)) e)\<rparr>)"
proof -
  have ff: "next_call_fails (world s) = Some e"
    using fails by (simp add: next_call_fails_def)
  obtain s' where s': "mail_tree_truncate c s = Inr s'"
      "tree s' = (tree s)\<lparr>mmap_full_length := truncate_target c s\<rparr>"
      "trace (world s') = trace (world s) @ [Ftruncate (fd (tree s)) (truncate_target c s)]"
      "load_hdr c (world s') (header (tree s)) = Some (h\<lparr>hdr_sync_id := hdr_sync_id h + 1\<rparr>)"
      "file_size (world s') =
         (if next_call_fails (world s) = None then truncate_target c s else file_size (world s))"
      "index s' = (case next_call_fails (world s) of
                   None \<Rightarrow> index s
                 | Some e \<Rightarrow> index (snd (tree_set_syscall_error ''ftruncate()'' e s)))"
    using mail_tree_truncate_shrink [OF lk nanon big thr hdr] by blast
  show ?thesis
    using s' by (simp add: ff tree_set_syscall_error_def index_set_error_def)
qed

theorem mail_tree_truncate_ftruncate_fails_witness:
  "lock_type (index (open_file 1776 hdr_1248 [Some EIO])) = MAIL_LOCK_EXCLUSIVE \<and>
   \<not> anon_mmap (tree (open_file 1776 hdr_1248 [Some EIO])) \<and>
   MAIL_TREE_MIN_SIZE cfg0 < mmap_full_length (tree (open_file 1776 hdr_1248 [Some EIO])) \<and>
   mmap_full_length (tree (open_file 1776 hdr_1248 [Some EIO])) div 100 *
     of_nat (INDEX_TRUNCATE_PERCENTAGE cfg0)
     < mmap_full_length (tree (open_file 1776 hdr_1248 [Some EIO])) -
       mmap_used_length (tree (open_file 1776 hdr_1248 [Some EIO])) \<and>
   truncate_target cfg0 (open_file 1776 hdr_1248 [Some EIO]) = 1560 \<and>
   (\<exists>s'. mail_tree_truncate cfg0 (open_file 1776 hdr_1248 [Some EIO]) = Inr s' \<and>
         mmap_full_length (tree s') = 1560 \<and>
         file_size (world s') = 1776 \<and>
         load_hdr cfg0 (world s') (header (tree s')) = Some (hdr_1248\<lparr>hdr_sync_id := 1\<rparr>) \<and>
         error (index s') =
           Some (Syscall_failed ''ftruncate()'' ''mail/.imap.index.tree'' EIO))"
proof -
  let ?s = "open_file 1776 hdr_1248 [Some EIO]"
  have lk: "lock_type (index ?s) = MAIL_LOCK_EXCLUSIVE"
    by (simp add: open_file_fields index0_fields)
  have nanon: "\<not> anon_mmap (tree ?s)" by (simp add: open_file_fields)
  have big: "MAIL_TREE_MIN_SIZE cfg0 < mmap_full_length (tree ?s)"
    by (simp add: open_file_fields cfg0_fields)
  have thr: "mmap_full_length (tree ?s) div 100 * of_nat (INDEX_TRUNCATE_PERCENTAGE cfg0)
                < mmap_full_length (tree ?s) - mmap_used_length (tree ?s)"
    by (simp add: open_file_fields cfg0_fields hdr_1248_def)
  have ld: "load_hdr cfg0 (world ?s) (header (tree ?s)) = Some hdr_1248"
    by (simp add: open_file_fields)
  have fails: "outcomes (world ?s) = Some EIO # []" by (simp add: open_file_fields)
  have tt: "truncate_target cfg0 ?s = 1560"
    by (simp add: truncate_target_def Let_def open_file_fields cfg0_fields hdr_1248_def)
  show ?thesis
    using mail_tree_truncate_ftruncate_fails [OF lk nanon big thr ld fails] lk nanon big thr tt
    by (auto simp add: open_file_fields index0_fields hdr_1248_fields ENOSPACE_def)
qed

subsection \<open>Failures are reported on the owning index\<close>


lemma tsse_parts:
  "reported (snd (tree_set_syscall_error f e s))"
  by (simp add: tree_set_syscall_error_def index_set_error_def reported_def)













subsection \<open>Which calls failed, and what the index holds afterwards\<close>
























lemma set_rebuild_tree_world: "world (set_rebuild_tree c s) = world s"
  by (simp add: set_rebuild_tree_def)
























lemma recorded_reported:
  "continues w0 w \<Longrightarrow> error i \<noteq> None \<or> nodiskspace i \<Longrightarrow> recorded w0 w i"
  by (simp add: recorded_def)












































subsection \<open>The cheap path of \<open>_mail_tree_mmap_update\<close>\<close>

lemma load_hdr_not_null: "load_hdr c w p = Some h \<Longrightarrow> p \<noteq> NULL"
  by (auto simp add: load_hdr_def)

lemma sys_msync_r:
  "fst (sys_msync p l i w) = next_call_fails w"
  "trace (snd (sys_msync p l i w)) = trace w @ [Msync p l i]"
  "mappings (snd (sys_msync p l i w)) = mappings w"
  "file_hdr (snd (sys_msync p l i w)) = file_hdr w"
  "file_size (snd (sys_msync p l i w)) = file_size w"
  by (simp_all add: sys_msync_def sys_call_def next_call_fails_def split: list.splits option.splits)

lemma cheap_path_eq:
  assumes hdr: "load_hdr c (world s) (header (tree s)) = Some h"
    and same: "sync_id (tree s) = hdr_sync_id h"
  shows "mail_tree_mmap_update c False s =
     (case (if invalidating s then next_call_fails (world s) else None) of
        Some e \<Rightarrow>
          Inr (False,
               s\<lparr>world := invalidated s,
                 index := (if ENOSPACE e then (index s)\<lparr>nodiskspace := True\<rparr>
                           else (index s)\<lparr>error := Some (Syscall_failed ''msync()''
                                                           (filepath (tree s)) e)\<rparr>)\<rparr>)
      | None \<Rightarrow>
          if mmap_full_length (tree s) < used_file_size h then Inl Panic
          else Inr (True, s\<lparr>world := invalidated s,
                             tree := (tree s)\<lparr>mmap_used_length := used_file_size h\<rparr>\<rparr>))"
proof -
  have nn: "header (tree s) \<noteq> NULL" using hdr by (rule load_hdr_not_null)
  have ld: "load_hdr c (invalidated s) (header (tree s)) = Some h"
    using hdr by (simp add: invalidated_def load_hdr_cong [OF logged_fields(3,4)])
  show ?thesis
  proof (cases "invalidating s")
    case False
    then have "\<not> (mmap_invalidate (index s) \<and> mmap_base (tree s) \<noteq> NULL)"
      by (simp add: invalidating_def)
    then show ?thesis
      using False hdr nn same
      by (auto simp add: mail_tree_mmap_update_def Let_def invalidated_def)
  next
    case True
    then have t: "mmap_invalidate (index s) \<and> mmap_base (tree s) \<noteq> NULL"
      by (simp add: invalidating_def)
    show ?thesis
    proof (cases "next_call_fails (world s)")
      case None
      then show ?thesis
        using True t ld nn same
        by (simp add: mail_tree_mmap_update_def Let_def invalidated_def sys_msync_def sys_call_eq)
    next
      case (Some e)
      then show ?thesis
        using True t
        by (simp add: mail_tree_mmap_update_def Let_def invalidated_def sys_msync_def sys_call_eq
            tree_set_syscall_error_def index_set_error_def)
    qed
  qed
qed


lemma invalidated_fields:
  "mappings (invalidated s) = mappings (world s)" "file_hdr (invalidated s) = file_hdr (world s)"
  "file_size (invalidated s) = file_size (world s)"
  "file_linked (invalidated s) = file_linked (world s)"
  by (simp_all add: invalidated_def logged_fields)

text \<open>
  C7, as the code has it. Let \<open>_mail_tree_mmap_update\<close> be called with \<open>forced = FALSE\<close> on
  a handle whose \<open>header\<close> is readable and whose cached \<open>sync_id\<close> equals
  \<open>header.sync_id\<close>. When the owning index has \<open>mmap_invalidate\<close> set and \<open>mmap_base\<close> is
  not null, it first calls \<open>msync\<close> with \<open>MS_SYNC | MS_INVALIDATE\<close>; if that call fails it
  returns \<open>FALSE\<close>, the failure is reported on the index, and nothing else changes:
  \<open>mmap_used_length\<close> is not refreshed. Otherwise it panics when
  \<open>header.used_file_size\<close> exceeds \<open>mmap_full_length\<close>, and else returns \<open>TRUE\<close> with
  \<open>mmap_used_length\<close> set to \<open>header.used_file_size\<close> and nothing else changed: the rest
  of the handle, the index, the file and the mappings are as before, and the only call
  made is that \<open>msync\<close>. After a \<open>TRUE\<close> result a second call with \<open>forced = FALSE\<close> returns
  and leaves handle, mappings and file as they are; without \<open>mmap_invalidate\<close> it returns
  \<open>TRUE\<close> and leaves the whole state as it is.
\<close>

theorem mmap_update_cheap_path:
  assumes hdr: "load_hdr c (world s) (header (tree s)) = Some h"
    and same: "sync_id (tree s) = hdr_sync_id h"
  shows "mail_tree_mmap_update c False s =
     (case (if invalidating s then next_call_fails (world s) else None) of
        Some e \<Rightarrow>
          Inr (False,
               s\<lparr>world := invalidated s,
                 index := (if ENOSPACE e then (index s)\<lparr>nodiskspace := True\<rparr>
                           else (index s)\<lparr>error := Some (Syscall_failed ''msync()''
                                                           (filepath (tree s)) e)\<rparr>)\<rparr>)
      | None \<Rightarrow>
          if mmap_full_length (tree s) < used_file_size h then Inl Panic
          else Inr (True, s\<lparr>world := invalidated s,
                             tree := (tree s)\<lparr>mmap_used_length := used_file_size h\<rparr>\<rparr>)) \<and>
     (\<forall>s'. mail_tree_mmap_update c False s = Inr (True, s') \<longrightarrow>
        (case mail_tree_mmap_update c False s' of
           Inl a \<Rightarrow> False
         | Inr (b2, s'') \<Rightarrow>
             tree s'' = tree s' \<and>
             mappings (world s'') = mappings (world s') \<and>
             file_size (world s'') = file_size (world s') \<and>
             file_hdr (world s'') = file_hdr (world s') \<and>
             file_linked (world s'') = file_linked (world s') \<and>
             (\<not> invalidating s \<longrightarrow> b2 \<and> s'' = s')))"
proof (intro conjI allI impI)
  show "mail_tree_mmap_update c False s =
     (case (if invalidating s then next_call_fails (world s) else None) of
        Some e \<Rightarrow>
          Inr (False,
               s\<lparr>world := invalidated s,
                 index := (if ENOSPACE e then (index s)\<lparr>nodiskspace := True\<rparr>
                           else (index s)\<lparr>error := Some (Syscall_failed ''msync()''
                                                           (filepath (tree s)) e)\<rparr>)\<rparr>)
      | None \<Rightarrow>
          if mmap_full_length (tree s) < used_file_size h then Inl Panic
          else Inr (True, s\<lparr>world := invalidated s,
                             tree := (tree s)\<lparr>mmap_used_length := used_file_size h\<rparr>\<rparr>))"
    by (rule cheap_path_eq [OF hdr same])
next
  fix s' assume a: "mail_tree_mmap_update c False s = Inr (True, s')"
  have s': "s' = s\<lparr>world := invalidated s,
                   tree := (tree s)\<lparr>mmap_used_length := used_file_size h\<rparr>\<rparr>"
    and fits: "\<not> mmap_full_length (tree s) < used_file_size h"
    using a unfolding cheap_path_eq [OF hdr same]
    by (auto split: option.splits if_splits)
  have hdr': "load_hdr c (world s') (header (tree s')) = Some h"
    using hdr by (simp add: s' load_hdr_cong [OF invalidated_fields(1,2)])
  have same': "sync_id (tree s') = hdr_sync_id h" using same by (simp add: s')
  have inv: "invalidating s' = invalidating s" by (simp add: s' invalidating_def)
  have t: "(tree s')\<lparr>mmap_used_length := used_file_size h\<rparr> = tree s'" by (simp add: s')
  have w: "\<not> invalidating s \<Longrightarrow> invalidated s' = world s'"
    using inv by (simp add: invalidated_def)
  have fits': "\<not> mmap_full_length (tree s') < used_file_size h" using fits by (simp add: s')
  show "case mail_tree_mmap_update c False s' of
           Inl a \<Rightarrow> False
         | Inr (b2, s'') \<Rightarrow>
             tree s'' = tree s' \<and>
             mappings (world s'') = mappings (world s') \<and>
             file_size (world s'') = file_size (world s') \<and>
             file_hdr (world s'') = file_hdr (world s') \<and>
             file_linked (world s'') = file_linked (world s') \<and>
             (\<not> invalidating s \<longrightarrow> b2 \<and> s'' = s')"
    unfolding cheap_path_eq [OF hdr' same']
    using fits' w
    by (auto simp add: inv t invalidated_fields split: option.splits)
qed

theorem mmap_update_cheap_path_witness:
  "load_hdr cfg0 (world stale_file) (header (tree stale_file)) = Some hdr_1248 \<and>
   sync_id (tree stale_file) = hdr_sync_id hdr_1248 \<and>
   mail_tree_mmap_update cfg0 False stale_file = Inr (True, open_file 1776 hdr_1248 []) \<and>
   mail_tree_mmap_update cfg0 False (open_file 1776 hdr_1248 []) =
     Inr (True, open_file 1776 hdr_1248 [])"
proof -
  let ?o = "open_file 1776 hdr_1248 []"
  have hdr: "load_hdr cfg0 (world stale_file) (header (tree stale_file)) = Some hdr_1248"
    by (simp add: stale_file_def open_file_def mapped_file_def file_world_def load_hdr_def cfg0_def)
  have same: "sync_id (tree stale_file) = hdr_sync_id hdr_1248"
    by (simp add: stale_file_def open_file_def mapped_file_def)
  have ni: "invalidating stale_file = False"
    by (simp add: invalidating_def stale_file_def open_file_def mapped_file_def index0_def)
  have iw: "invalidated stale_file = world stale_file"
    by (simp add: invalidated_def ni)
  have r: "stale_file\<lparr>world := world stale_file,
              tree := (tree stale_file)\<lparr>mmap_used_length := used_file_size hdr_1248\<rparr>\<rparr> = ?o"
    by (simp add: stale_file_def open_file_def mapped_file_def hdr_1248_def)
  have f: "(mmap_full_length (tree stale_file) < used_file_size hdr_1248) = False"
    by (simp add: stale_file_def open_file_def mapped_file_def hdr_1248_def)
  have e1: "mail_tree_mmap_update cfg0 False stale_file = Inr (True, ?o)"
    by (simp only: mmap_update_cheap_path [OF hdr same, THEN conjunct1] ni iw f r if_False
        option.case)
  have hdr2: "load_hdr cfg0 (world ?o) (header (tree ?o)) = Some hdr_1248"
    by (simp add: open_file_fields)
  have same2: "sync_id (tree ?o) = hdr_sync_id hdr_1248"
    by (simp add: open_file_fields)
  have ni2: "invalidating ?o = False"
    by (simp add: invalidating_def open_file_fields index0_fields)
  have iw2: "invalidated ?o = world ?o"
    by (simp add: invalidated_def ni2)
  have r2: "?o\<lparr>world := world ?o,
              tree := (tree ?o)\<lparr>mmap_used_length := used_file_size hdr_1248\<rparr>\<rparr> = ?o"
    by (simp add: open_file_def mapped_file_def hdr_1248_def)
  have f2: "(mmap_full_length (tree ?o) < used_file_size hdr_1248) = False"
    by (simp add: open_file_def mapped_file_def hdr_1248_def)
  have e2: "mail_tree_mmap_update cfg0 False ?o = Inr (True, ?o)"
    by (simp only: cheap_path_eq [OF hdr2 same2] ni2 iw2 f2 r2 if_False option.case)
  show ?thesis using hdr same e1 e2 by (simp only: simp_thms)
qed

text \<open>
  The claim as stated fails when the invalidating \<open>msync\<close> fails: the call returns \<open>FALSE\<close>
  without a panic, and \<open>mmap_used_length\<close> keeps its old value 1200 although
  \<open>header.used_file_size\<close> is 1248.
\<close>

theorem cheap_path_msync_fails:
  "load_hdr cfg0 (world stale_invalidate) (header (tree stale_invalidate)) = Some hdr_1248 \<and>
   sync_id (tree stale_invalidate) = hdr_sync_id hdr_1248 \<and>
   used_file_size hdr_1248 = 1248 \<and>
   mmap_used_length (tree stale_invalidate) = 1200 \<and>
   mail_tree_mmap_update cfg0 False stale_invalidate =
     Inr (False,
          stale_invalidate
            \<lparr>index := (index stale_invalidate)
                \<lparr>error := Some (Syscall_failed ''msync()'' ''mail/.imap.index.tree'' EIO)\<rparr>,
             world := (world stale_invalidate)
                \<lparr>trace := [Msync (Ptr 0 0) 1200 True], outcomes := []\<rparr>\<rparr>) \<and>
   mmap_used_length (tree (stale_invalidate
            \<lparr>index := (index stale_invalidate)
                \<lparr>error := Some (Syscall_failed ''msync()'' ''mail/.imap.index.tree'' EIO)\<rparr>,
             world := (world stale_invalidate)
                \<lparr>trace := [Msync (Ptr 0 0) 1200 True], outcomes := []\<rparr>\<rparr>)) = 1200"
  by (simp add: mail_tree_mmap_update_def stale_invalidate_def stale_file_def open_file_def
      mapped_file_def file_world_def load_hdr_def cfg0_def index0_def hdr_1248_def Let_def
      sys_msync_def sys_call_def tree_set_syscall_error_def index_set_error_def ENOSPACE_def)

subsection \<open>Growth\<close>

lemma sys_file_set_size_r:
  "fst (sys_file_set_size f l w) = next_call_fails w"
  "trace (snd (sys_file_set_size f l w)) = trace w @ [File_set_size f l]"
  "mappings (snd (sys_file_set_size f l w)) = mappings w"
  "file_hdr (snd (sys_file_set_size f l w)) = file_hdr w"
  "file_size (snd (sys_file_set_size f l w)) = (if next_call_fails w = None then l else file_size w)"
  "outcomes (snd (sys_file_set_size f l w)) = tl (outcomes w)"
  "next_addr (snd (sys_file_set_size f l w)) = next_addr w"
  by (simp_all add: sys_file_set_size_def sys_call_def next_call_fails_def
      split: list.splits option.splits)

lemma grow_count_max:
  "grow_count c s = max 16 (messages_count (index s) * of_nat (INDEX_GROW_PERCENTAGE c) div 100)"
  by (auto simp add: grow_count_def Let_def max_def)

lemma grow_count_nat:
  assumes "unat (messages_count (index s)) * INDEX_GROW_PERCENTAGE c < 2 ^ 32"
  shows "unat (grow_count c s) =
           max 16 (unat (messages_count (index s)) * INDEX_GROW_PERCENTAGE c div 100)"
proof -
  let ?m = "messages_count (index s)" and ?p = "INDEX_GROW_PERCENTAGE c"
  have mul: "unat (?m * of_nat ?p) = unat ?m * ?p"
  proof (cases "unat ?m = 0")
    case True
    then have "?m = 0" by (simp add: unat_eq_0)
    then show ?thesis by simp
  next
    case False
    then have "?p \<le> unat ?m * ?p" by simp
    then have "?p < 2 ^ 32" using assms by (rule le_less_trans)
    then have "unat (of_nat ?p :: uint) = ?p" by (simp add: unat_of_nat take_bit_eq_mod)
    then show ?thesis using assms by (simp add: unat_word_ariths)
  qed
  have g: "unat (?m * of_nat ?p div 100) = unat ?m * ?p div 100"
    by (simp add: unat_div mul)
  show ?thesis
    by (simp add: grow_count_def Let_def word_less_nat_alt g max_def)
qed


lemma sys_mremap_anon_ok:
  assumes "mappings w a = Some m" "m_anon m" "next_call_fails w = None"
  shows "sys_mremap_anon (Ptr a 0) old_len new_len w =
     (Inr (Ptr (next_addr w) 0),
      w\<lparr>trace := trace w @ [Mremap_anon (Ptr a 0) old_len new_len],
        outcomes := tl (outcomes w),
        mappings := ((mappings w)(a := None))(next_addr w \<mapsto> m\<lparr>m_len := new_len\<rparr>),
        next_addr := Suc (next_addr w)\<rparr>)"
  using assms
  by (auto simp add: sys_mremap_anon_def sys_call_def next_call_fails_def
      split: list.splits option.splits)

lemma sys_mremap_anon_fail:
  assumes "next_call_fails w = Some e"
  shows "sys_mremap_anon p old_len new_len w =
     (Inl e, w\<lparr>trace := trace w @ [Mremap_anon p old_len new_len], outcomes := tl (outcomes w)\<rparr>)"
  using assms
  by (auto simp add: sys_mremap_anon_def sys_call_def next_call_fails_def
      split: list.splits option.splits)

text \<open>
  C2. In \<open>_mail_tree_grow\<close>, \<open>grow_count\<close> is the larger of 16 and
  \<open>messages_count * INDEX_GROW_PERCENTAGE / 100\<close>, computed in \<open>unsigned int\<close> (the
  mathematical value whenever the product fits 32 bits), and \<open>new_fsize\<close> is
  \<open>mmap_full_length + grow_count * sizeof(node)\<close>. With the assertions on \<open>new_fsize\<close>
  holding: a file-backed tree calls \<open>file_set_size\<close> with \<open>new_fsize\<close>; if that fails the
  call returns \<open>FALSE\<close> with the failure reported and handle and file length unchanged;
  if it succeeds (and \<open>tree->header\<close> is readable) the file is \<open>new_fsize\<close> long,
  \<open>header.sync_id\<close> is one more, and the result is that of the forced
  \<open>_mail_tree_mmap_update\<close> on the handle with \<open>modified\<close> set. An anonymous tree calls
  \<open>mremap_anon\<close> with \<open>new_fsize\<close>; if that fails the call returns \<open>FALSE\<close> with handle and
  mappings unchanged; if it succeeds the region has the new length (under a new
  identity, as moving is allowed), base and \<open>mmap_full_length\<close> are updated, and the result
  is that of \<open>mmap_verify\<close>.
\<close>

theorem mail_tree_grow_steps:
  "grow_count c s =
     max 16 (messages_count (index s) * of_nat (INDEX_GROW_PERCENTAGE c) div 100) \<and>
   (unat (messages_count (index s)) * INDEX_GROW_PERCENTAGE c < 2 ^ 32 \<longrightarrow>
      unat (grow_count c s) =
        max 16 (unat (messages_count (index s)) * INDEX_GROW_PERCENTAGE c div 100)) \<and>
   new_fsize c s = mmap_full_length (tree s) + ucast (grow_count c s) * sizeof_node c \<and>
   (\<not> anon_mmap (tree s) \<and> new_fsize c s < OFF_T_MAX c \<longrightarrow>
      (case next_call_fails (world s) of
         Some e \<Rightarrow>
           \<exists>s'. mail_tree_grow c s = Inr (False, s') \<and> tree s' = tree s \<and>
                 file_size (world s') = file_size (world s) \<and>
                 trace (world s') =
                   trace (world s) @ [File_set_size (fd (tree s)) (new_fsize c s)] \<and>
                 reported s'
       | None \<Rightarrow>
           \<forall>h. load_hdr c (world s) (header (tree s)) = Some h \<longrightarrow>
             (\<exists>w. trace w = trace (world s) @ [File_set_size (fd (tree s)) (new_fsize c s)] \<and>
                   outcomes w = tl (outcomes (world s)) \<and>
                   file_size w = new_fsize c s \<and>
                   load_hdr c w (header (tree s)) =
                     Some (h\<lparr>hdr_sync_id := hdr_sync_id h + 1\<rparr>) \<and>
                   mail_tree_grow c s =
                     mail_tree_mmap_update c True
                       (s\<lparr>world := w, tree := (tree s)\<lparr>modified := True\<rparr>\<rparr>)))) \<and>
   (anon_mmap (tree s) \<and> new_fsize c s < OFF_T_MAX c \<and> new_fsize c s < SSIZE_T_MAX c \<longrightarrow>
      (case next_call_fails (world s) of
         Some e \<Rightarrow>
           \<exists>s'. mail_tree_grow c s = Inr (False, s') \<and> tree s' = tree s \<and>
                 mappings (world s') = mappings (world s) \<and>
                 trace (world s') =
                   trace (world s) @
                   [Mremap_anon (mmap_base (tree s)) (mmap_full_length (tree s)) (new_fsize c s)] \<and>
                 reported s'
       | None \<Rightarrow>
           \<forall>a m. mmap_base (tree s) = Ptr a 0 \<and> mappings (world s) a = Some m \<and> m_anon m \<longrightarrow>
             mail_tree_grow c s =
               mmap_verify c
                 (s\<lparr>world := (world s)
                       \<lparr>trace := trace (world s) @
                          [Mremap_anon (Ptr a 0) (mmap_full_length (tree s)) (new_fsize c s)],
                        outcomes := tl (outcomes (world s)),
                        mappings := ((mappings (world s))(a := None))
                                      (next_addr (world s) \<mapsto> m\<lparr>m_len := new_fsize c s\<rparr>),
                        next_addr := Suc (next_addr (world s))\<rparr>,
                    tree := (tree s)\<lparr>mmap_base := Ptr (next_addr (world s)) 0,
                                     mmap_full_length := new_fsize c s\<rparr>\<rparr>)))"
proof -
  have file_fail: "\<exists>s'. mail_tree_grow c s = Inr (False, s') \<and> tree s' = tree s \<and>
                 file_size (world s') = file_size (world s) \<and>
                 trace (world s') =
                   trace (world s) @ [File_set_size (fd (tree s)) (new_fsize c s)] \<and>
                 reported s'"
    if a: "\<not> anon_mmap (tree s)" "new_fsize c s < OFF_T_MAX c" "next_call_fails (world s) = Some e"
    for e
  proof -
    define r where "r = sys_file_set_size (fd (tree s)) (new_fsize c s) (world s)"
    have r': "r = (Some e, snd r)"
      using sys_file_set_size_r(1) [of "fd (tree s)" "new_fsize c s" "world s"] a(3)
      by (metis prod.collapse r_def)
    have "mail_tree_grow c s = Inr (tree_set_syscall_error ''file_set_size()'' e (s\<lparr>world := snd r\<rparr>))"
      using a(1,2) unfolding mail_tree_grow_def r_def [symmetric]
      by (subst r') simp
    then have "mail_tree_grow c s =
        Inr (False, snd (tree_set_syscall_error ''file_set_size()'' e (s\<lparr>world := snd r\<rparr>)))"
      by (metis prod.collapse tree_set_syscall_error_frame(1))
    then show ?thesis
      using a(3) by (simp add: tree_set_syscall_error_frame tsse_parts r_def sys_file_set_size_r)
  qed
  have file_ok: "\<exists>w. trace w = trace (world s) @ [File_set_size (fd (tree s)) (new_fsize c s)] \<and>
                   outcomes w = tl (outcomes (world s)) \<and>
                   file_size w = new_fsize c s \<and>
                   load_hdr c w (header (tree s)) =
                     Some (h\<lparr>hdr_sync_id := hdr_sync_id h + 1\<rparr>) \<and>
                   mail_tree_grow c s =
                     mail_tree_mmap_update c True
                       (s\<lparr>world := w, tree := (tree s)\<lparr>modified := True\<rparr>\<rparr>)"
    if a: "\<not> anon_mmap (tree s)" "new_fsize c s < OFF_T_MAX c" "next_call_fails (world s) = None"
      "load_hdr c (world s) (header (tree s)) = Some h" for h
  proof -
    define r where "r = sys_file_set_size (fd (tree s)) (new_fsize c s) (world s)"
    have r': "r = (None, snd r)"
      using sys_file_set_size_r(1) [of "fd (tree s)" "new_fsize c s" "world s"] a(3)
      by (metis prod.collapse r_def)
    have ld: "load_hdr c (world (s\<lparr>world := snd r\<rparr>)) (header (tree (s\<lparr>world := snd r\<rparr>))) = Some h"
      using a(4) by (simp add: r_def load_hdr_cong [OF sys_file_set_size_r(3,4)])
    obtain s1 where s1: "bump_sync_id c (s\<lparr>world := snd r\<rparr>) = Some s1" "tree s1 = tree s"
        "index s1 = index s"
        "load_hdr c (world s1) (header (tree s)) = Some (h\<lparr>hdr_sync_id := hdr_sync_id h + 1\<rparr>)"
        "file_size (world s1) = file_size (snd r)" "trace (world s1) = trace (snd r)"
        "outcomes (world s1) = outcomes (snd r)"
      using bump_sync_id_ok [OF ld] by auto
    have s1eq: "s1\<lparr>tree := (tree s)\<lparr>modified := True\<rparr>\<rparr> =
                s\<lparr>world := world s1, tree := (tree s)\<lparr>modified := True\<rparr>\<rparr>"
      using s1(2,3) by (cases s1, cases s) simp
    have "mail_tree_grow c s =
            mail_tree_mmap_update c True (s1\<lparr>tree := (tree s1)\<lparr>modified := True\<rparr>\<rparr>)"
      using a(1,2) unfolding mail_tree_grow_def r_def [symmetric]
      by (subst r') (simp add: s1(1))
    then show ?thesis
      using s1 a(3) by (intro exI [of _ "world s1"]) (simp add: s1eq r_def sys_file_set_size_r)
  qed
  have anon_fail: "\<exists>s'. mail_tree_grow c s = Inr (False, s') \<and> tree s' = tree s \<and>
                 mappings (world s') = mappings (world s) \<and>
                 trace (world s') =
                   trace (world s) @
                   [Mremap_anon (mmap_base (tree s)) (mmap_full_length (tree s)) (new_fsize c s)] \<and>
                 reported s'"
    if a: "anon_mmap (tree s)" "new_fsize c s < OFF_T_MAX c" "new_fsize c s < SSIZE_T_MAX c"
      "next_call_fails (world s) = Some e" for e
  proof -
    have "mail_tree_grow c s = Inr (tree_set_syscall_error ''mremap_anon()'' e
        (s\<lparr>world := (world s)\<lparr>trace := trace (world s) @
             [Mremap_anon (mmap_base (tree s)) (mmap_full_length (tree s)) (new_fsize c s)],
           outcomes := tl (outcomes (world s))\<rparr>\<rparr>))"
      using a(1,2,3) by (simp add: mail_tree_grow_def sys_mremap_anon_fail [OF a(4)])
    then have "mail_tree_grow c s = Inr (False, snd (tree_set_syscall_error ''mremap_anon()'' e
        (s\<lparr>world := (world s)\<lparr>trace := trace (world s) @
             [Mremap_anon (mmap_base (tree s)) (mmap_full_length (tree s)) (new_fsize c s)],
           outcomes := tl (outcomes (world s))\<rparr>\<rparr>)))"
      by (metis prod.collapse tree_set_syscall_error_frame(1))
    then show ?thesis
      by (simp add: tree_set_syscall_error_frame tsse_parts)
  qed
  have anon_ok: "mail_tree_grow c s =
               mmap_verify c
                 (s\<lparr>world := (world s)
                       \<lparr>trace := trace (world s) @
                          [Mremap_anon (Ptr a 0) (mmap_full_length (tree s)) (new_fsize c s)],
                        outcomes := tl (outcomes (world s)),
                        mappings := ((mappings (world s))(a := None))
                                      (next_addr (world s) \<mapsto> m\<lparr>m_len := new_fsize c s\<rparr>),
                        next_addr := Suc (next_addr (world s))\<rparr>,
                    tree := (tree s)\<lparr>mmap_base := Ptr (next_addr (world s)) 0,
                                     mmap_full_length := new_fsize c s\<rparr>\<rparr>)"
    if a: "anon_mmap (tree s)" "new_fsize c s < OFF_T_MAX c" "new_fsize c s < SSIZE_T_MAX c"
      "next_call_fails (world s) = None" "mmap_base (tree s) = Ptr a 0"
      "mappings (world s) a = Some m" "m_anon m" for a m
    using a(1,2,3)
    by (simp add: mail_tree_grow_def a(5) sys_mremap_anon_ok [OF a(6) a(7) a(4)])
  show ?thesis
    using file_fail file_ok anon_fail anon_ok grow_count_nat [of s c]
    by (simp add: grow_count_max new_fsize_def split: option.splits)
qed


lemma grow_example:
  "mail_tree_grow cfg0 (open_file 1776 hdr_1248 []) = Inr (True, grown_file)"
  by (simp add: mail_tree_grow_def new_fsize_def grow_count_def grown_file_def open_file_def
      mapped_file_def file_world_def cfg0_def index0_def hdr_1248_def Let_def
      sys_file_set_size_def sys_call_def bump_sync_id_def load_hdr_def store_hdr_def
      mail_tree_mmap_update_def remap_and_verify_def mmap_update_def mmap_update_release_def
      sys_msync_def sys_munmap_def unmap_def sys_mmap_rw_file_def mmap_verify_def
      mmap_verify_extra_def fun_upd_twist)


theorem mail_tree_grow_steps_witness:
  "unat (messages_count (index (open_file 1776 hdr_1248 []))) * INDEX_GROW_PERCENTAGE cfg0 < 2 ^ 32 \<and>
   \<not> anon_mmap (tree (open_file 1776 hdr_1248 [])) \<and>
   new_fsize cfg0 (open_file 1776 hdr_1248 []) < OFF_T_MAX cfg0 \<and>
   load_hdr cfg0 (world (open_file 1776 hdr_1248 []))
     (header (tree (open_file 1776 hdr_1248 []))) = Some hdr_1248 \<and>
   unat (grow_count cfg0 (open_file 1776 hdr_1248 [])) = 16 \<and>
   new_fsize cfg0 (open_file 1776 hdr_1248 []) = 2160 \<and>
   mail_tree_grow cfg0 (open_file 1776 hdr_1248 []) = Inr (True, grown_file)"
proof -
  let ?s = "open_file 1776 hdr_1248 []"
  have mc: "unat (messages_count (index ?s)) * INDEX_GROW_PERCENTAGE cfg0 < 2 ^ 32"
    by (simp add: open_file_fields index0_fields cfg0_fields)
  have ld: "load_hdr cfg0 (world ?s) (header (tree ?s)) = Some hdr_1248"
    by (simp add: open_file_fields)
  have g: "unat (grow_count cfg0 ?s) = 16"
    using mail_tree_grow_steps [of cfg0 ?s] mc
    by (simp add: open_file_fields index0_fields cfg0_fields)
  then have g': "grow_count cfg0 ?s = 16"
    by (simp add: word_unat_eq_iff)
  have n: "new_fsize cfg0 ?s = 2160"
    using mail_tree_grow_steps [of cfg0 ?s]
    by (simp add: g' open_file_fields cfg0_fields)
  show ?thesis
    using mc ld g n grow_example
    by (simp add: open_file_fields cfg0_def)
qed

subsection \<open>Rebuilding\<close>

lemma rebuild_loop_true:
  "rebuild_loop c ins recs s = Inr (True, s') \<longleftrightarrow>
     (\<exists>ss. length ss = Suc (length recs) \<and> ss ! 0 = s \<and> ss ! length recs = s' \<and>
           (\<forall>i < length recs.
              ins (uid (recs ! i)) (record_index (recs ! i)) (ss ! i) = Inr (True, ss ! Suc i)))"
proof (induction recs arbitrary: s)
  case Nil
  show ?case
  proof
    assume "rebuild_loop c ins [] s = Inr (True, s')"
    then have "s' = s" by simp
    then show "\<exists>ss. length ss = Suc (length []) \<and> ss ! 0 = s \<and> ss ! length [] = s' \<and>
           (\<forall>i < length ([] :: mail_index_record list).
              ins (uid ([] ! i)) (record_index ([] ! i)) (ss ! i) = Inr (True, ss ! Suc i))"
      by (intro exI [of _ "[s]"]) simp
  next
    assume "\<exists>ss. length ss = Suc (length []) \<and> ss ! 0 = s \<and> ss ! length [] = s' \<and>
           (\<forall>i < length ([] :: mail_index_record list).
              ins (uid ([] ! i)) (record_index ([] ! i)) (ss ! i) = Inr (True, ss ! Suc i))"
    then show "rebuild_loop c ins [] s = Inr (True, s')" by auto
  qed
next
  case (Cons r recs)
  show ?case
  proof
    assume a: "rebuild_loop c ins (r # recs) s = Inr (True, s')"
    then obtain s1 where s1: "ins (uid r) (record_index r) s = Inr (True, s1)"
      and rest: "rebuild_loop c ins recs s1 = Inr (True, s')"
      by (auto split: sum.splits prod.splits bool.splits)
    from rest obtain ss where ss: "length ss = Suc (length recs)" "ss ! 0 = s1"
      "ss ! length recs = s'"
      "\<forall>i < length recs. ins (uid (recs ! i)) (record_index (recs ! i)) (ss ! i) = Inr (True, ss ! Suc i)"
      using Cons.IH [of s1] by blast
    have "\<forall>i < length (r # recs).
            ins (uid ((r # recs) ! i)) (record_index ((r # recs) ! i)) ((s # ss) ! i) =
              Inr (True, (s # ss) ! Suc i)"
    proof (intro allI impI)
      fix i assume "i < length (r # recs)"
      then show "ins (uid ((r # recs) ! i)) (record_index ((r # recs) ! i)) ((s # ss) ! i) =
              Inr (True, (s # ss) ! Suc i)"
        using s1 ss by (cases i) auto
    qed
    then show "\<exists>ss. length ss = Suc (length (r # recs)) \<and> ss ! 0 = s \<and>
           ss ! length (r # recs) = s' \<and>
           (\<forall>i < length (r # recs).
              ins (uid ((r # recs) ! i)) (record_index ((r # recs) ! i)) (ss ! i) =
                Inr (True, ss ! Suc i))"
      using ss by (intro exI [of _ "s # ss"]) simp
  next
    assume "\<exists>ss. length ss = Suc (length (r # recs)) \<and> ss ! 0 = s \<and>
           ss ! length (r # recs) = s' \<and>
           (\<forall>i < length (r # recs).
              ins (uid ((r # recs) ! i)) (record_index ((r # recs) ! i)) (ss ! i) =
                Inr (True, ss ! Suc i))"
    then obtain ss where ss: "length ss = Suc (Suc (length recs))" "ss ! 0 = s"
      "ss ! Suc (length recs) = s'"
      and step: "\<And>i. i < Suc (length recs) \<Longrightarrow>
              ins (uid ((r # recs) ! i)) (record_index ((r # recs) ! i)) (ss ! i) =
                Inr (True, ss ! Suc i)"
      by auto
    obtain x ts where xs: "ss = x # ts" using ss(1) by (cases ss) auto
    have x: "x = s" using ss(2) xs by simp
    have first: "ins (uid r) (record_index r) s = Inr (True, ts ! 0)"
      using step [of 0] xs x by simp
    have "\<forall>i < length recs.
            ins (uid (recs ! i)) (record_index (recs ! i)) (ts ! i) = Inr (True, ts ! Suc i)"
      using step [of "Suc _"] xs by simp
    then have "rebuild_loop c ins recs (ts ! 0) = Inr (True, s')"
      using Cons.IH [of "ts ! 0"] ss xs by auto
    then show "rebuild_loop c ins (r # recs) s = Inr (True, s')"
      using first by simp
  qed
qed


lemma rebuild_loop_false:
  "rebuild_loop c ins recs s = Inr (False, s') \<Longrightarrow>
     \<exists>k ss t. k < length recs \<and> length ss = Suc k \<and> ss ! 0 = s \<and>
       (\<forall>i < k. ins (uid (recs ! i)) (record_index (recs ! i)) (ss ! i) = Inr (True, ss ! Suc i)) \<and>
       ins (uid (recs ! k)) (record_index (recs ! k)) (ss ! k) = Inr (False, t) \<and>
       s' = set_rebuild_tree c t"
proof (induction recs arbitrary: s)
  case Nil
  then show ?case by simp
next
  case (Cons r recs)
  show ?case
  proof (cases "ins (uid r) (record_index r) s")
    case (Inl a)
    then show ?thesis using Cons.prems by simp
  next
    case (Inr p)
    obtain b s1 where p: "p = (b, s1)" by (cases p)
    show ?thesis
    proof (cases b)
      case False
      then have "s' = set_rebuild_tree c s1" using Cons.prems Inr p by simp
      then show ?thesis
        using Inr p False
        by (intro exI [of _ 0] exI [of _ "[s]"] exI [of _ s1]) simp
    next
      case True
      then have "rebuild_loop c ins recs s1 = Inr (False, s')"
        using Cons.prems Inr p by simp
      then obtain k ss t where k: "k < length recs" "length ss = Suc k" "ss ! 0 = s1"
        "\<forall>i < k. ins (uid (recs ! i)) (record_index (recs ! i)) (ss ! i) = Inr (True, ss ! Suc i)"
        "ins (uid (recs ! k)) (record_index (recs ! k)) (ss ! k) = Inr (False, t)"
        "s' = set_rebuild_tree c t"
        using Cons.IH [of s1] by blast
      have "\<forall>i < Suc k. ins (uid ((r # recs) ! i)) (record_index ((r # recs) ! i)) ((s # ss) ! i) =
               Inr (True, (s # ss) ! Suc i)"
      proof (intro allI impI)
        fix i assume "i < Suc k"
        then show "ins (uid ((r # recs) ! i)) (record_index ((r # recs) ! i)) ((s # ss) ! i) =
               Inr (True, (s # ss) ! Suc i)"
          using Inr p True k by (cases i) auto
      qed
      then show ?thesis
        using k by (intro exI [of _ "Suc k"] exI [of _ "s # ss"] exI [of _ t]) simp
    qed
  qed
qed

lemma set_rebuild_tree_flag:
  "flags (index (set_rebuild_tree c s)) AND MAIL_INDEX_FLAG_REBUILD_TREE c =
     MAIL_INDEX_FLAG_REBUILD_TREE c"
  by (simp add: set_rebuild_tree_def word_ao_absorbs)

text \<open>
  C4. \<open>mail_tree_rebuild\<close> returns \<open>TRUE\<close> exactly when \<open>set_lock\<close> grants the exclusive
  lock, \<open>mail_tree_reset\<close> on the resulting state returns \<open>TRUE\<close>, and, starting from the
  state that the reset leaves, the insert of \<open>(uid, record position)\<close> for every record of
  the owning index, in order from the first, returns \<open>TRUE\<close>, each on the state the one
  before left. When the lock is refused it returns \<open>FALSE\<close> with the state \<open>set_lock\<close> left
  (no reset, no insert); when the reset fails it returns \<open>FALSE\<close> with the reset's state.
  When lock and reset succeed and it returns \<open>FALSE\<close>, some insert returned \<open>FALSE\<close> after
  all inserts before it had succeeded, no later record was inserted, and the
  \<open>REBUILD_TREE\<close> flag is set in the index header.
\<close>

theorem mail_tree_rebuild_spec:
  "(mail_tree_rebuild c set_lock ins s = Inr (True, s') \<longleftrightarrow>
      (\<exists>s1 s2 ss.
         set_lock MAIL_LOCK_EXCLUSIVE s = (True, s1) \<and>
         mail_tree_reset c s1 = Inr (True, s2) \<and>
         length ss = Suc (length (records (index s2))) \<and>
         ss ! 0 = s2 \<and> ss ! length (records (index s2)) = s' \<and>
         (\<forall>i < length (records (index s2)).
            ins (uid (records (index s2) ! i)) (record_index (records (index s2) ! i)) (ss ! i) =
              Inr (True, ss ! Suc i)))) \<and>
   (\<forall>s1. set_lock MAIL_LOCK_EXCLUSIVE s = (False, s1) \<longrightarrow>
      mail_tree_rebuild c set_lock ins s = Inr (False, s1)) \<and>
   (\<forall>s1 s2. set_lock MAIL_LOCK_EXCLUSIVE s = (True, s1) \<and> mail_tree_reset c s1 = Inr (False, s2) \<longrightarrow>
      mail_tree_rebuild c set_lock ins s = Inr (False, s2)) \<and>
   (\<forall>s1 s2. set_lock MAIL_LOCK_EXCLUSIVE s = (True, s1) \<and> mail_tree_reset c s1 = Inr (True, s2) \<and>
      mail_tree_rebuild c set_lock ins s = Inr (False, s') \<longrightarrow>
      flags (index s') AND MAIL_INDEX_FLAG_REBUILD_TREE c = MAIL_INDEX_FLAG_REBUILD_TREE c \<and>
      (\<exists>k ss t. k < length (records (index s2)) \<and> length ss = Suc k \<and> ss ! 0 = s2 \<and>
         (\<forall>i < k. ins (uid (records (index s2) ! i)) (record_index (records (index s2) ! i)) (ss ! i) =
                    Inr (True, ss ! Suc i)) \<and>
         ins (uid (records (index s2) ! k)) (record_index (records (index s2) ! k)) (ss ! k) =
           Inr (False, t) \<and>
         s' = set_rebuild_tree c t))"
proof (intro conjI allI impI)
  show "mail_tree_rebuild c set_lock ins s = Inr (True, s') \<longleftrightarrow>
      (\<exists>s1 s2 ss.
         set_lock MAIL_LOCK_EXCLUSIVE s = (True, s1) \<and>
         mail_tree_reset c s1 = Inr (True, s2) \<and>
         length ss = Suc (length (records (index s2))) \<and>
         ss ! 0 = s2 \<and> ss ! length (records (index s2)) = s' \<and>
         (\<forall>i < length (records (index s2)).
            ins (uid (records (index s2) ! i)) (record_index (records (index s2) ! i)) (ss ! i) =
              Inr (True, ss ! Suc i)))"
  proof (cases "set_lock MAIL_LOCK_EXCLUSIVE s")
    case (Pair b s1)
    show ?thesis
    proof (cases b)
      case False
      then show ?thesis using Pair by (simp add: mail_tree_rebuild_def)
    next
      case True
      show ?thesis
      proof (cases "mail_tree_reset c s1")
        case (Inl a)
        then show ?thesis using Pair True by (simp add: mail_tree_rebuild_def)
      next
        case (Inr p)
        obtain b2 s2 where p: "p = (b2, s2)" by (cases p)
        show ?thesis
        proof (cases b2)
          case False
          then show ?thesis using Pair True Inr p by (simp add: mail_tree_rebuild_def)
        next
          case t2: True
          have "mail_tree_rebuild c set_lock ins s = rebuild_loop c ins (records (index s2)) s2"
            using Pair True Inr p t2 by (simp add: mail_tree_rebuild_def)
          then show ?thesis
            using Pair True Inr p t2 by (simp add: rebuild_loop_true)
        qed
      qed
    qed
  qed
next
  fix s1 assume "set_lock MAIL_LOCK_EXCLUSIVE s = (False, s1)"
  then show "mail_tree_rebuild c set_lock ins s = Inr (False, s1)"
    by (simp add: mail_tree_rebuild_def)
next
  fix s1 s2
  assume "set_lock MAIL_LOCK_EXCLUSIVE s = (True, s1) \<and> mail_tree_reset c s1 = Inr (False, s2)"
  then show "mail_tree_rebuild c set_lock ins s = Inr (False, s2)"
    by (simp add: mail_tree_rebuild_def)
next
  fix s1 s2
  assume a: "set_lock MAIL_LOCK_EXCLUSIVE s = (True, s1) \<and> mail_tree_reset c s1 = Inr (True, s2) \<and>
      mail_tree_rebuild c set_lock ins s = Inr (False, s')"
  then have l: "rebuild_loop c ins (records (index s2)) s2 = Inr (False, s')"
    by (clarsimp simp add: mail_tree_rebuild_def)
  from rebuild_loop_false [OF l]
  show ex: "\<exists>k ss t. k < length (records (index s2)) \<and> length ss = Suc k \<and> ss ! 0 = s2 \<and>
         (\<forall>i < k. ins (uid (records (index s2) ! i)) (record_index (records (index s2) ! i)) (ss ! i) =
                    Inr (True, ss ! Suc i)) \<and>
         ins (uid (records (index s2) ! k)) (record_index (records (index s2) ! k)) (ss ! k) =
           Inr (False, t) \<and>
         s' = set_rebuild_tree c t" .
  then show "flags (index s') AND MAIL_INDEX_FLAG_REBUILD_TREE c = MAIL_INDEX_FLAG_REBUILD_TREE c"
    using set_rebuild_tree_flag by blast
qed


theorem mail_tree_rebuild_spec_witness:
  "set_lock_ok MAIL_LOCK_EXCLUSIVE new_file = (True, new_file) \<and>
   (\<exists>s2. mail_tree_reset cfg0 new_file = Inr (True, s2)) \<and>
   (\<exists>s'. mail_tree_rebuild cfg0 set_lock_ok (insert_refusing 2) new_file = Inr (False, s') \<and>
         flags (index s') AND MAIL_INDEX_FLAG_REBUILD_TREE cfg0 =
           MAIL_INDEX_FLAG_REBUILD_TREE cfg0)"
proof -
  have l: "set_lock_ok MAIL_LOCK_EXCLUSIVE new_file = (True, new_file)"
    by (simp add: set_lock_ok_def new_file_def index0_def)
  have r: "\<exists>s2. mail_tree_reset cfg0 new_file = Inr (True, s2)"
    by (simp add: mail_tree_reset_def mail_tree_init_def new_file_def index0_def cfg0_def
        MAIL_TREE_MIN_SIZE_def zero_header_def Let_def sys_lseek_def sys_write_full_def
        sys_file_set_size_def sys_call_def mail_tree_mmap_update_def remap_and_verify_def
        mmap_update_def mmap_update_release_def sys_mmap_rw_file_def mmap_verify_def
        mmap_verify_extra_def load_hdr_def)
  then obtain s2 where s2: "mail_tree_reset cfg0 new_file = Inr (True, s2)" by blast
  have recs: "records (index s2) = records (index new_file)"
    using s2
    by (simp add: mail_tree_reset_def mail_tree_init_def new_file_def index0_def cfg0_def
        MAIL_TREE_MIN_SIZE_def zero_header_def Let_def sys_lseek_def sys_write_full_def
        sys_file_set_size_def sys_call_def mail_tree_mmap_update_def remap_and_verify_def
        mmap_update_def mmap_update_release_def sys_mmap_rw_file_def mmap_verify_def
        mmap_verify_extra_def load_hdr_def) auto
  have recs0: "records (index new_file) =
      [\<lparr>uid = 1, record_index = 0\<rparr>, \<lparr>uid = 2, record_index = 1\<rparr>, \<lparr>uid = 3, record_index = 2\<rparr>]"
    by (simp add: new_file_def)
  have f: "\<exists>s'. mail_tree_rebuild cfg0 set_lock_ok (insert_refusing 2) new_file = Inr (False, s')"
    by (simp add: mail_tree_rebuild_def l s2 recs recs0 insert_refusing_def)
  then obtain s' where s': "mail_tree_rebuild cfg0 set_lock_ok (insert_refusing 2) new_file = Inr (False, s')"
    by blast
  have "flags (index s') AND MAIL_INDEX_FLAG_REBUILD_TREE cfg0 = MAIL_INDEX_FLAG_REBUILD_TREE cfg0"
    using mail_tree_rebuild_spec [of cfg0 set_lock_ok "insert_refusing 2" new_file s'] l s2 s'
    by blast
  then show ?thesis using l r s' by blast
qed

subsection \<open>Anonymous trees and \<open>msync\<close>\<close>

text \<open>
  C6 fails on the code. \<open>mmap_update\<close> and \<open>mail_tree_sync_file\<close> guard their \<open>msync\<close> with
  \<open>anon_mmap\<close>; the invalidating \<open>msync\<close> at the start of \<open>_mail_tree_mmap_update\<close> tests only
  \<open>index->mmap_invalidate\<close> and \<open>mmap_base\<close>. On an anonymous tree whose index has
  \<open>mmap_invalidate\<close> set, the unforced update calls \<open>msync\<close> on the anonymous region.
\<close>

theorem anon_mmap_update_calls_msync:
  "anon_mmap (tree anon_invalidate) \<and>
   mail_tree_mmap_update cfg0 False anon_invalidate =
     Inr (True, anon_invalidate
            \<lparr>world := (world anon_invalidate)\<lparr>trace := [Msync (Ptr 0 0) 48 True]\<rparr>\<rparr>)"
  by (simp add: mail_tree_mmap_update_def anon_invalidate_def index0_def sys_msync_def
      sys_call_def load_hdr_def cfg0_def Let_def)

text \<open>The guarded paths: on an anonymous tree \<open>mail_tree_sync_file\<close> and
  \<open>_mail_tree_truncate\<close> return at once and make no call, and \<open>mmap_update\<close> stops at its
  assertion.\<close>

lemma anon_tree_no_sync:
  assumes "anon_mmap (tree s)"
  shows "mail_tree_sync_file s = Inr (True, - 1, s)"
    and "lock_type (index s) = MAIL_LOCK_EXCLUSIVE \<Longrightarrow> mail_tree_truncate c s = Inr s"
    and "mmap_update s = Inl Assert_failed"
  using assms
  by (simp_all add: mail_tree_sync_file_def mail_tree_truncate_def mmap_update_def)

subsection \<open>The handle after \<open>mail_tree_close\<close>\<close>

text \<open>
  C9 fails on the code. \<open>mmap_update\<close> clears \<open>header\<close> and \<open>node_base\<close> before it maps
  again, and \<open>mmap_base\<close> when mapping fails; \<open>mail_tree_close\<close> clears \<open>mmap_base\<close> and
  \<open>header\<close> but not \<open>node_base\<close>. After closing a verified tree the mapping is gone,
  \<open>mmap_base\<close> and \<open>header\<close> are null, and \<open>node_base\<close> still points into the released
  region.
\<close>

theorem close_keeps_node_base:
  "handle_ok (open_file 1776 hdr_1248 []) \<and>
   \<not> handle_ok (mail_tree_close (open_file 1776 hdr_1248 [])) \<and>
   mappings (world (mail_tree_close (open_file 1776 hdr_1248 []))) 0 = None \<and>
   mmap_base (tree (mail_tree_close (open_file 1776 hdr_1248 []))) = NULL \<and>
   header (tree (mail_tree_close (open_file 1776 hdr_1248 []))) = NULL \<and>
   node_base (tree (mail_tree_close (open_file 1776 hdr_1248 []))) = Ptr 0 24"
  by (simp add: mail_tree_close_def open_file_def mapped_file_def file_world_def
      sys_munmap_def sys_close_def sys_call_def unmap_def Let_def handle_ok_def)

text \<open>\<open>mmap_update\<close>, by contrast, keeps the invariant on every return, the failed remap
  included.\<close>

lemma mmap_update_release_handle:
  "mmap_update_release s = Inl (b, s') \<Longrightarrow> handle_ok s \<Longrightarrow> handle_ok s'"
  by (auto simp add: mmap_update_release_def Let_def handle_ok_def sys_msync_def sys_call_def
      tree_set_syscall_error_def index_set_error_def
      split: if_splits prod.splits option.splits list.splits ptr.splits)

lemma mmap_update_remap_handle:
  "(case sys_mmap_rw_file f (world t) of
       (Inl e, w) \<Rightarrow>
          Inr (tree_set_syscall_error ''mmap()'' e
                 (t\<lparr>world := w, tree := (tree t)\<lparr>mmap_base := NULL\<rparr>\<rparr>))
     | (Inr (base, len), w) \<Rightarrow>
          Inr (True, t\<lparr>world := w,
                         tree := (tree t)\<lparr>mmap_base := base, mmap_full_length := len\<rparr>\<rparr>))
     = Inr (b, s') \<Longrightarrow>
   header (tree t) = NULL \<Longrightarrow> node_base (tree t) = NULL \<Longrightarrow> handle_ok s'"
  by (auto simp add: handle_ok_def sys_mmap_rw_file_def sys_call_def
      tree_set_syscall_error_def index_set_error_def
      split: if_splits prod.splits option.splits list.splits sum.splits)

lemma mmap_update_handle:
  assumes "mmap_update s = Inr (b, s')" "handle_ok s"
  shows "handle_ok s'"
proof (cases "mmap_update_release s")
  case (Inl p)
  then have "mmap_update_release s = Inl (b, s')"
    using assms(1) by (auto simp add: mmap_update_def split: if_splits)
  then show ?thesis using assms(2) by (rule mmap_update_release_handle)
next
  case (Inr s1)
  have na: "\<not> anon_mmap (tree s)" using assms(1) by (auto simp add: mmap_update_def split: if_splits)
  show ?thesis
    by (rule mmap_update_remap_handle
        [where f = "fd (tree s1)" and b = b and t = "s1\<lparr>tree := (tree s1)\<lparr>mmap_used_length := 0,
                                             header := NULL, node_base := NULL\<rparr>\<rparr>"])
       (use assms(1) na Inr in \<open>simp_all add: mmap_update_def Let_def\<close>)
qed

end
